theory Spec2Isabelle
  imports Complex_Main "HOL-Library.Log_Nat"
begin

text \<open>
  The analysis pipeline of the repository report service, as a shallow embedding: the
  fixed-window rate limiter, the scoring engine, the diagram codec (identifier and label
  sanitization, validation, generation, choice of the diagram source), the admission checks
  of the analysis endpoint and the consumer of the result stream. Each function of the
  TypeScript sources is a HOL function of the same name; module state, the clock and the
  random source are explicit arguments; the collaborators that are not part of the sources
  are parameters.
\<close>

section \<open>JavaScript strings\<close>

text \<open>
  A JavaScript string is a sequence of UTF-16 code units. A code unit is modelled as a
  natural number, so that \<open>length\<close> is the source's \<open>.length\<close> and the character classes
  of the regular expressions are ranges of numbers. \<open>js\<close> turns a literal into its code units.
\<close>

type_synonym jsstring = "nat list"

definition js :: "string \<Rightarrow> jsstring" where
  "js s = map of_char s"

section \<open>Rate limiter (app/api/analyze/rate-limit.ts)\<close>

text \<open>
  \<open>RATE_LIMIT\<close> is imported from \<open>./config\<close>; its two constants are taken as a parameter.
  \<open>Date.now()\<close> is the parameter \<open>now\<close> of each call. The module state is the map and the
  handle of the cleanup timer (\<open>cleanupInterval\<close>, here: whether it has been installed).
\<close>

record RateLimitConfig =
  WINDOW_MS :: int
  MAX_REQUESTS :: int

record RateLimitRecord =
  count :: int
  resetTime :: int

record RateLimitResult =
  allowed :: bool
  remaining :: int

record limiter =
  rateLimitMap :: "jsstring \<rightharpoonup> RateLimitRecord"
  cleanupInterval :: bool

definition initialLimiter :: limiter where
  "initialLimiter = \<lparr>rateLimitMap = Map.empty, cleanupInterval = False\<rparr>"

definition ensureCleanupRunning :: "limiter \<Rightarrow> limiter" where
  "ensureCleanupRunning st =
     (if \<not> cleanupInterval st then st\<lparr>cleanupInterval := True\<rparr> else st)"

definition checkRateLimit ::
    "RateLimitConfig \<Rightarrow> int \<Rightarrow> jsstring \<Rightarrow> limiter \<Rightarrow> RateLimitResult \<times> limiter" where
  "checkRateLimit cfg now ip st0 =
     (let st = ensureCleanupRunning st0;
          newWindow =
            (\<lparr>allowed = True, remaining = MAX_REQUESTS cfg - 1\<rparr>,
             st\<lparr>rateLimitMap := (rateLimitMap st)
                   (ip \<mapsto> \<lparr>count = 1, resetTime = now + WINDOW_MS cfg\<rparr>)\<rparr>)
      in case rateLimitMap st ip of
           None \<Rightarrow> newWindow
         | Some record \<Rightarrow>
             if now > resetTime record then newWindow
             else if count record \<ge> MAX_REQUESTS cfg then
               (\<lparr>allowed = False, remaining = 0\<rparr>, st)
             else
               (let record' = record\<lparr>count := count record + 1\<rparr>
                in (\<lparr>allowed = True, remaining = MAX_REQUESTS cfg - count record'\<rparr>,
                    st\<lparr>rateLimitMap := (rateLimitMap st)(ip \<mapsto> record')\<rparr>)))"

definition cleanupExpiredRecords :: "int \<Rightarrow> limiter \<Rightarrow> limiter" where
  "cleanupExpiredRecords now st =
     st\<lparr>rateLimitMap := (\<lambda>ip. case rateLimitMap st ip of
                                None \<Rightarrow> None
                              | Some r \<Rightarrow> if now > resetTime r then None else Some r)\<rparr>"

text \<open>
  A run of the module: calls of \<open>checkRateLimit\<close> (by any client, at any clock value) and
  firings of the cleanup timer, in any order.
\<close>

datatype limiterCall = Check jsstring int | Cleanup int

fun execCall :: "RateLimitConfig \<Rightarrow> limiterCall \<Rightarrow> limiter \<Rightarrow> limiter" where
  "execCall cfg (Check ip now) st = snd (checkRateLimit cfg now ip st)"
| "execCall cfg (Cleanup now) st = cleanupExpiredRecords now st"

fun execCalls :: "RateLimitConfig \<Rightarrow> limiterCall list \<Rightarrow> limiter \<Rightarrow> limiter" where
  "execCalls cfg [] st = st"
| "execCalls cfg (c # cs) st = execCalls cfg cs (execCall cfg c st)"

text \<open>The same client calling at the clock values \<open>ts\<close>, in order: the results and the final state.\<close>

fun checkMany ::
    "RateLimitConfig \<Rightarrow> jsstring \<Rightarrow> int list \<Rightarrow> limiter \<Rightarrow> RateLimitResult list \<times> limiter" where
  "checkMany cfg ip [] st = ([], st)"
| "checkMany cfg ip (t # ts) st =
     (let (r, st') = checkRateLimit cfg t ip st;
          (rs, st'') = checkMany cfg ip ts st'
      in (r # rs, st''))"

text \<open>The range every stored record is kept in.\<close>

definition recordsInRange :: "RateLimitConfig \<Rightarrow> limiter \<Rightarrow> bool" where
  "recordsInRange cfg st \<longleftrightarrow>
     (\<forall>ip r. rateLimitMap st ip = Some r \<longrightarrow> 1 \<le> count r \<and> count r \<le> MAX_REQUESTS cfg)"

section \<open>String operations of the JavaScript library\<close>

text \<open>
  White space as \<open>String.prototype.trim\<close> and the class \<open>\s\<close> of a regular expression see
  it: the WhiteSpace and LineTerminator code units.
\<close>

definition isWhiteSpace :: "nat \<Rightarrow> bool" where
  "isWhiteSpace c \<longleftrightarrow>
     c = 0x09 \<or> c = 0x0A \<or> c = 0x0B \<or> c = 0x0C \<or> c = 0x0D \<or> c = 0x20 \<or> c = 0xA0
     \<or> c = 0x1680 \<or> (0x2000 \<le> c \<and> c \<le> 0x200A) \<or> c = 0x2028 \<or> c = 0x2029
     \<or> c = 0x202F \<or> c = 0x205F \<or> c = 0x3000 \<or> c = 0xFEFF"

definition trim :: "jsstring \<Rightarrow> jsstring" where
  "trim s = rev (dropWhile isWhiteSpace (rev (dropWhile isWhiteSpace s)))"

text \<open>
  \<open>toLowerCase\<close>, one code unit at a time. The letters A to Z and the capital letters of
  Latin-1 move to their small forms; the two characters beyond Latin-1 whose small form
  holds an ASCII letter (U+0130 and the Kelvin sign U+212A) are mapped as Unicode maps
  them. Every other code unit is kept: its small form lies beyond ASCII as well, so it
  takes part in no comparison with an ASCII keyword.
\<close>

definition toLowerCaseUnit :: "nat \<Rightarrow> jsstring" where
  "toLowerCaseUnit c =
     (if 0x41 \<le> c \<and> c \<le> 0x5A then [c + 0x20]
      else if 0xC0 \<le> c \<and> c \<le> 0xDE \<and> c \<noteq> 0xD7 then [c + 0x20]
      else if c = 0x130 then [0x69, 0x307]
      else if c = 0x212A then [0x6B]
      else [c])"

definition toLowerCase :: "jsstring \<Rightarrow> jsstring" where
  "toLowerCase s = concat (map toLowerCaseUnit s)"

definition startsWith :: "jsstring \<Rightarrow> jsstring \<Rightarrow> bool" where
  "startsWith s p \<longleftrightarrow> take (length p) s = p"

text \<open>\<open>s.slice(a, b)\<close> for indices \<open>0 \<le> a \<le> b\<close>.\<close>

definition slice :: "nat \<Rightarrow> nat \<Rightarrow> jsstring \<Rightarrow> jsstring" where
  "slice a b s = take (b - a) (drop a s)"

text \<open>\<open>xs.join(sep)\<close> on an array of strings.\<close>

fun join :: "jsstring \<Rightarrow> jsstring list \<Rightarrow> jsstring" where
  "join sep [] = []"
| "join sep [x] = x"
| "join sep (x # y # ys) = x @ sep @ join sep (y # ys)"

text \<open>The decimal text of a non-negative integer, as a template prints a number.\<close>

fun decimal :: "nat \<Rightarrow> jsstring" where
  "decimal n = (if n < 10 then [0x30 + n] else decimal (n div 10) @ [0x30 + n mod 10])"

declare decimal.simps [simp del]

text \<open>\<open>s.replace(/c/g, t)\<close> for a single code unit \<open>c\<close>.\<close>

definition replaceAll :: "nat \<Rightarrow> jsstring \<Rightarrow> jsstring \<Rightarrow> jsstring" where
  "replaceAll c t s = concat (map (\<lambda>x. if x = c then t else [x]) s)"

text \<open>\<open>s.replace(/\s+/g, " ")\<close>: every maximal run of white space becomes one space.\<close>

fun collapseRun :: "bool \<Rightarrow> jsstring \<Rightarrow> jsstring" where
  "collapseRun inRun [] = []"
| "collapseRun inRun (c # cs) =
     (if isWhiteSpace c then
        (if inRun then collapseRun True cs else 0x20 # collapseRun True cs)
      else c # collapseRun False cs)"

definition collapseWhiteSpace :: "jsstring \<Rightarrow> jsstring" where
  "collapseWhiteSpace s = collapseRun False s"

section \<open>Double-precision arithmetic\<close>

text \<open>
  A JavaScript number is an IEEE 754 double. A finite double is modelled as the rational
  number it stands for, and an arithmetic operation as the exact operation followed by
  rounding to the nearest double, a tie going to the even significand. \<open>binaryExponent x\<close>
  is the \<open>e\<close> with \<open>2^e \<le> x < 2^(e+1)\<close>; doubles in that range are the multiples of
  \<open>2^(e-52)\<close>. Overflow and subnormal numbers are left out: no value of the computations
  below comes near them.
\<close>

definition roundHalfEven :: "rat \<Rightarrow> int" where
  "roundHalfEven y =
     (let f = \<lfloor>y\<rfloor>; r = y - of_int f
      in if r < 1 / 2 then f else if r > 1 / 2 then f + 1 else if even f then f else f + 1)"

definition binaryExponent :: "rat \<Rightarrow> int" where
  "binaryExponent x =
     (if x \<ge> 1 then int (floorlog 2 (nat \<lfloor>x\<rfloor>)) - 1
      else - int (floorlog 2 (nat \<lceil>1 / x\<rceil> - 1)))"

definition pow2 :: "int \<Rightarrow> rat" where
  "pow2 k = (if k \<ge> 0 then 2 ^ nat k else 1 / 2 ^ nat (- k))"

definition roundPositive :: "rat \<Rightarrow> rat" where
  "roundPositive x =
     (let ulp = pow2 (binaryExponent x - 52)
      in of_int (roundHalfEven (x / ulp)) * ulp)"

definition toDouble :: "rat \<Rightarrow> rat" where
  "toDouble x = (if x = 0 then 0 else if x > 0 then roundPositive x else - roundPositive (- x))"

text \<open>The product and the sum of two doubles, and the double a decimal literal denotes.\<close>

definition dmul :: "rat \<Rightarrow> rat \<Rightarrow> rat" where
  "dmul a b = toDouble (a * b)"

definition dadd :: "rat \<Rightarrow> rat \<Rightarrow> rat" where
  "dadd a b = toDouble (a + b)"

definition decimalLiteral :: "rat \<Rightarrow> rat" where
  "decimalLiteral x = toDouble x"

text \<open>A multiple of a quarter, between 0 and \<open>bound / 4\<close>.\<close>

definition quarters :: "int \<Rightarrow> rat \<Rightarrow> bool" where
  "quarters bound x \<longleftrightarrow> (\<exists>m. 0 \<le> m \<and> m \<le> bound \<and> x = of_int m / 4)"

text \<open>The scores \<open>calculateScores\<close> can give to a category: the multiples of 5 up to 100.\<close>

definition fives :: "int list" where
  "fives = [0, 5, 10, 15, 20, 25, 30, 35, 40, 45, 50, 55, 60, 65, 70, 75, 80, 85, 90, 95, 100]"

definition tens :: "int list" where
  "tens = [0, 10, 20, 30, 40, 50, 60, 70, 80, 90, 100]"

section \<open>Scoring engine (app/api/analyze/code-analyzer.ts, calculateScores)\<close>

datatype ReadmeQuality = Missing | Minimal | Basic | Good | Excellent

record CodePatterns =
  hasErrorHandling :: bool
  hasLogging :: bool
  hasValidation :: bool

record CodeMetrics =
  hasTests :: bool
  testFileCount :: int
  hasCI :: bool
  ciProvider :: "jsstring option"
  hasLinting :: bool
  hasTypeScript :: bool
  strictMode :: bool
  hasPrettier :: bool
  hasSecurityConfig :: bool
  hasEnvExample :: bool
  exposedSecrets :: "jsstring list"
  hasChangelog :: bool
  hasContributing :: bool
  hasLicense :: bool
  readmeQuality :: ReadmeQuality
  dependencyCount :: int
  devDependencyCount :: int
  vulnerablePatterns :: "jsstring list"
  largeFiles :: "jsstring list"
  codePatterns :: CodePatterns
  missingEssentials :: "jsstring list"
  existingAutomations :: "jsstring list"

text \<open>One entry of \<open>breakdown\<close>: a category score and its factor strings.\<close>

record ScoreEntry =
  score :: int
  factors :: "jsstring list"

record Scores =
  overall :: int
  codeQuality :: int
  documentation :: int
  security :: int
  maintainability :: int
  testCoverage :: int
  dependencies :: int
  breakdown :: "(jsstring \<times> ScoreEntry) list"

text \<open>
  A conditional adjustment of the source,
  \<^verbatim>\<open>if (c) { x += d; xf.push(f); }\<close>, on the pair of the running score and its factors.
\<close>

definition adjust :: "bool \<Rightarrow> int \<Rightarrow> jsstring \<Rightarrow> int \<times> jsstring list \<Rightarrow> int \<times> jsstring list" where
  "adjust c d f p = (if c then (fst p + d, snd p @ [f]) else p)"

text \<open>The text of a README quality, as the template \<^verbatim>\<open>`README: ${metrics.readmeQuality}`\<close> prints it.\<close>

fun readmeQualityText :: "ReadmeQuality \<Rightarrow> jsstring" where
  "readmeQualityText Missing = js ''missing''"
| "readmeQualityText Minimal = js ''minimal''"
| "readmeQualityText Basic = js ''basic''"
| "readmeQualityText Good = js ''good''"
| "readmeQualityText Excellent = js ''excellent''"

fun rmScore :: "ReadmeQuality \<Rightarrow> int" where
  "rmScore Missing = 0"
| "rmScore Minimal = 10"
| "rmScore Basic = 25"
| "rmScore Good = 40"
| "rmScore Excellent = 50"

text \<open>The six sections of \<open>calculateScores\<close>, in the order of the source.\<close>

definition codeQualityEntry :: "CodeMetrics \<Rightarrow> ScoreEntry" where
  "codeQualityEntry metrics =
     (let p = (50, []);
          p = adjust (hasTypeScript metrics) 20 (js ''+20: TypeScript'') p;
          p = adjust (strictMode metrics) 10 (js ''+10: Strict'') p;
          p = adjust (hasLinting metrics) 10 (js ''+10: Linting'') p;
          p = adjust (hasPrettier metrics) 5 (js ''+5: Prettier'') p;
          p = adjust (hasErrorHandling (codePatterns metrics)) 5 (js ''+5: Error handling'') p
      in \<lparr>score = min 100 (fst p), factors = snd p\<rparr>)"

definition documentationEntry :: "CodeMetrics \<Rightarrow> ScoreEntry" where
  "documentationEntry metrics =
     (let p = (30 + rmScore (readmeQuality metrics),
               [js ''README: '' @ readmeQualityText (readmeQuality metrics)]);
          p = adjust (hasChangelog metrics) 10 (js ''+10: CHANGELOG'') p;
          p = adjust (\<not> hasLicense metrics) (- 15) (js ''-15: No LICENSE'') p
      in \<lparr>score = max 0 (min 100 (fst p)), factors = snd p\<rparr>)"

definition securityEntry :: "CodeMetrics \<Rightarrow> ScoreEntry" where
  "securityEntry metrics =
     (let p = (70, []);
          p = adjust (hasSecurityConfig metrics) 15 (js ''+15: Security config'') p;
          p = adjust (length (exposedSecrets metrics) > 0) (- 30) (js ''-30: Secrets exposed'') p;
          p = adjust (length (vulnerablePatterns metrics) > 0) (- 15) (js ''-15: Deprecated deps'') p
      in \<lparr>score = max 0 (min 100 (fst p)), factors = snd p\<rparr>)"

definition maintainabilityEntry :: "CodeMetrics \<Rightarrow> ScoreEntry" where
  "maintainabilityEntry metrics =
     (let p = (50, []);
          p = adjust (hasCI metrics) 25
                (js ''+25: '' @ (case ciProvider metrics of None \<Rightarrow> js ''null'' | Some s \<Rightarrow> s)) p;
          p = adjust (hasTypeScript metrics) 15 (js ''+15: Types'') p;
          p = adjust (hasLinting metrics) 10 (js ''+10: Linting'') p
      in \<lparr>score = min 100 (fst p), factors = snd p\<rparr>)"

definition testCoverageEntry :: "CodeMetrics \<Rightarrow> ScoreEntry" where
  "testCoverageEntry metrics =
     (let p = (20, []);
          p = adjust (hasTests metrics) 50 (js ''+50: Tests exist'') p;
          p = adjust (hasCI metrics) 10 (js ''+10: CI'') p
      in \<lparr>score = min 100 (fst p), factors = snd p\<rparr>)"

definition dependenciesEntry :: "CodeMetrics \<Rightarrow> ScoreEntry" where
  "dependenciesEntry metrics =
     (let p = (80, []);
          p = adjust (length (vulnerablePatterns metrics) > 0) (- 20) (js ''-20: Deprecated'') p;
          p = adjust (dependencyCount metrics > 50) (- 10) (js ''-10: Heavy'') p
      in \<lparr>score = max 0 (fst p), factors = snd p\<rparr>)"

text \<open>
  \<open>Math.round\<close>: the nearest integer, a tie going up. \<open>weightedSumDouble\<close> is the argument
  of \<open>Math.round\<close> as the source evaluates it, in doubles and from left to right;
  \<open>weightedSum\<close> is the same sum in exact arithmetic with the decimal weights, which is what
  the weights 0.20, 0.15 and 0.10 of the specification mean.
\<close>

definition Math_round :: "rat \<Rightarrow> int" where
  "Math_round x = \<lfloor>x + 1 / 2\<rfloor>"

definition weightedSumDouble :: "int \<Rightarrow> int \<Rightarrow> int \<Rightarrow> int \<Rightarrow> int \<Rightarrow> int \<Rightarrow> rat" where
  "weightedSumDouble cq doc sec maint test dep =
     dadd (dadd (dadd (dadd (dadd (dmul (of_int cq) (decimalLiteral (2 / 10)))
                                  (dmul (of_int doc) (decimalLiteral (15 / 100))))
                            (dmul (of_int sec) (decimalLiteral (2 / 10))))
                      (dmul (of_int maint) (decimalLiteral (2 / 10))))
                (dmul (of_int test) (decimalLiteral (15 / 100))))
          (dmul (of_int dep) (decimalLiteral (1 / 10)))"

definition weightedSum :: "int \<Rightarrow> int \<Rightarrow> int \<Rightarrow> int \<Rightarrow> int \<Rightarrow> int \<Rightarrow> rat" where
  "weightedSum cq doc sec maint test dep =
     of_int cq * (2 / 10) + of_int doc * (15 / 100) + of_int sec * (2 / 10)
     + of_int maint * (2 / 10) + of_int test * (15 / 100) + of_int dep * (1 / 10)"

definition calculateScores :: "CodeMetrics \<Rightarrow> Scores" where
  "calculateScores metrics =
     (let cq = codeQualityEntry metrics;
          doc = documentationEntry metrics;
          sec = securityEntry metrics;
          maint = maintainabilityEntry metrics;
          test = testCoverageEntry metrics;
          dep = dependenciesEntry metrics
      in \<lparr>overall = Math_round (weightedSumDouble (score cq) (score doc) (score sec)
                                         (score maint) (score test) (score dep)),
          codeQuality = score cq,
          documentation = score doc,
          security = score sec,
          maintainability = score maint,
          testCoverage = score test,
          dependencies = score dep,
          breakdown = [(js ''codeQuality'', cq), (js ''documentation'', doc),
                       (js ''security'', sec), (js ''maintainability'', maint),
                       (js ''testCoverage'', test), (js ''dependencies'', dep)]\<rparr>)"

text \<open>A repository with no signal at all, as a starting point for concrete metrics.\<close>

definition bareMetrics :: CodeMetrics where
  "bareMetrics =
     \<lparr>hasTests = False, testFileCount = 0, hasCI = False, ciProvider = None,
      hasLinting = False, hasTypeScript = False, strictMode = False, hasPrettier = False,
      hasSecurityConfig = False, hasEnvExample = False, exposedSecrets = [],
      hasChangelog = False, hasContributing = False, hasLicense = False,
      readmeQuality = Missing, dependencyCount = 0, devDependencyCount = 0,
      vulnerablePatterns = [], largeFiles = [],
      codePatterns = \<lparr>hasErrorHandling = False, hasLogging = False, hasValidation = False\<rparr>,
      missingEssentials = [js ''README.md'', js ''LICENSE''], existingAutomations = []\<rparr>"

section \<open>Diagram codec (lib/mermaid.ts)\<close>

text \<open>
  \<open>sanitizeId\<close> reads the clock and the random source when its argument is empty. The
  pair \<open>(now, rnd)\<close> holds what \<open>Date.now()\<close> and \<open>Math.random().toString(36)\<close> return at
  that call.
\<close>

type_synonym entropy = "nat \<times> jsstring"

definition isLetter :: "nat \<Rightarrow> bool" where
  "isLetter c \<longleftrightarrow> (0x61 \<le> c \<and> c \<le> 0x7A) \<or> (0x41 \<le> c \<and> c \<le> 0x5A)"

definition isIdChar :: "nat \<Rightarrow> bool" where
  "isIdChar c \<longleftrightarrow>
     (0x61 \<le> c \<and> c \<le> 0x7A) \<or> (0x41 \<le> c \<and> c \<le> 0x5A) \<or> (0x30 \<le> c \<and> c \<le> 0x39)
     \<or> c = 0x5F \<or> c = 0x2D"

text \<open>\<open>s.replace(/^[^a-zA-Z]/, "n")\<close>\<close>

fun forceLetterStart :: "jsstring \<Rightarrow> jsstring" where
  "forceLetterStart [] = []"
| "forceLetterStart (c # cs) = (if isLetter c then c # cs else 0x6E # cs)"

definition sanitizeId :: "entropy \<Rightarrow> jsstring \<Rightarrow> jsstring" where
  "sanitizeId e ident =
     (if ident = [] then
        js ''node_'' @ decimal (fst e) @ js ''_'' @ slice 2 6 (snd e)
      else
        slice 0 30 (forceLetterStart (map (\<lambda>c. if isIdChar c then c else 0x5F) ident)))"

definition validStarts :: "jsstring list" where
  "validStarts =
     [js ''flowchart'', js ''graph'', js ''sequenceDiagram'', js ''classDiagram'',
      js ''stateDiagram'', js ''erDiagram'', js ''gantt'', js ''pie'', js ''mindmap'']"

text \<open>
  The argument is \<open>None\<close> for \<open>null\<close>, \<open>undefined\<close> and any value that is not a string.
\<close>

definition validateMermaidSyntax :: "jsstring option \<Rightarrow> bool" where
  "validateMermaidSyntax code =
     (case code of
        None \<Rightarrow> False
      | Some c \<Rightarrow>
          if c = [] then False
          else (let trimmed = toLowerCase (trim c)
                in list_ex (\<lambda>start. startsWith trimmed start) validStarts))"

section \<open>Diagram generation (lib/mermaid.ts)\<close>

text \<open>
  Modelled from the spec: the declarations of \<open>./types\<close> (ArchitectureComponent,
  DataFlowNode, DataFlowEdge) are not part of the sources at hand. The spec (4.5) types a
  component as frontend, backend, database, service, external or middleware and a flow
  node as source, process, store or output; the fields are those the generators read.
\<close>

datatype ComponentType = Frontend | Backend | Database | Service | External | Middleware

datatype FlowNodeType = Source | Process | Store | Output

record ArchitectureComponent =
  comp_id :: jsstring
  comp_name :: jsstring
  comp_type :: ComponentType
  technologies :: "jsstring list option"
  connections :: "jsstring list option"

record DataFlowNode =
  node_id :: jsstring
  node_name :: jsstring
  node_type :: FlowNodeType

record DataFlowEdge =
  edge_from :: jsstring
  edge_to :: jsstring
  edge_label :: "jsstring option"
  edge_dataType :: "jsstring option"

record DataFlow =
  nodes :: "DataFlowNode list option"
  edges :: "DataFlowEdge list option"

record MermaidDiagram =
  diagramType :: jsstring
  title :: jsstring
  code :: jsstring

record DiagramsData =
  architecture :: "MermaidDiagram option"
  dataFlow :: "MermaidDiagram option"
  components :: "MermaidDiagram option"

fun componentTypeName :: "ComponentType \<Rightarrow> jsstring" where
  "componentTypeName Frontend = js ''frontend''"
| "componentTypeName Backend = js ''backend''"
| "componentTypeName Database = js ''database''"
| "componentTypeName Service = js ''service''"
| "componentTypeName External = js ''external''"
| "componentTypeName Middleware = js ''middleware''"

fun flowNodeTypeName :: "FlowNodeType \<Rightarrow> jsstring" where
  "flowNodeTypeName Source = js ''source''"
| "flowNodeTypeName Process = js ''process''"
| "flowNodeTypeName Store = js ''store''"
| "flowNodeTypeName Output = js ''output''"

definition sanitizeLabel :: "jsstring \<Rightarrow> jsstring" where
  "sanitizeLabel text =
     (if text = [] then js ''Unknown''
      else
        (let t = replaceAll 0x28 (js ''['') text;
             t = replaceAll 0x29 (js '']'') t;
             t = replaceAll 0x5B (js ''['') t;
             t = replaceAll 0x5D (js '']'') t;
             t = replaceAll 0x22 [0x27] t;
             t = replaceAll 0x3C [0x2039] t;
             t = replaceAll 0x3E [0x203A] t;
             t = replaceAll 0x7C [0xA6] t;
             t = replaceAll 0x7B (js ''['') t;
             t = replaceAll 0x7D (js '']'') t;
             t = replaceAll 0x0A (js '' '') t;
             t = replaceAll 0x0D [] t;
             t = collapseWhiteSpace t
         in slice 0 40 (trim t)))"

text \<open>The pair of brackets of a node: \<open>open\<close> and \<open>close\<close>.\<close>

fun getNodeShape :: "ComponentType \<Rightarrow> jsstring \<times> jsstring" where
  "getNodeShape Frontend = (js ''['', js '']'')"
| "getNodeShape Backend = (js ''[['', js '']]'')"
| "getNodeShape Database = (js ''[('', js '')]'')"
| "getNodeShape Service = (js ''{{'', js ''}}'')"
| "getNodeShape External = (js ''[/'', js ''/]'')"
| "getNodeShape Middleware = (js ''['', js '']'')"

fun nodeStyles :: "FlowNodeType \<Rightarrow> jsstring \<times> jsstring" where
  "nodeStyles Source = (js ''(['', js ''])'')"
| "nodeStyles Process = (js ''['', js '']'')"
| "nodeStyles Store = (js ''[('', js '')]'')"
| "nodeStyles Output = (js ''[['', js '']]'')"

text \<open>
  \<open>typeGroups\<close>: an object used as a dictionary from a type to the identifiers pushed for
  it; \<open>Object.entries\<close> lists the keys in the order of their first insertion.
\<close>

fun groupPush :: "'k \<Rightarrow> jsstring \<Rightarrow> ('k \<times> jsstring list) list \<Rightarrow> ('k \<times> jsstring list) list" where
  "groupPush k v [] = [(k, [v])]"
| "groupPush k v ((k', vs) # rest) =
     (if k = k' then (k', vs @ [v]) # rest else (k', vs) # groupPush k v rest)"

definition classLine :: "jsstring list \<Rightarrow> jsstring \<Rightarrow> jsstring" where
  "classLine ids typeName = js ''    class '' @ join (js '','') ids @ js '' '' @ typeName"

text \<open>
  The generators call \<open>sanitizeId\<close> once per loop iteration. \<open>ent n\<close> is what the clock
  and the random source return at call number \<open>n\<close>; every generator takes the number of
  its first call and returns the number of the next one.
\<close>

definition archNode ::
    "(nat \<Rightarrow> entropy) \<Rightarrow> nat \<times> ArchitectureComponent \<Rightarrow>
     jsstring list \<times> (ComponentType \<times> jsstring list) list \<Rightarrow>
     jsstring list \<times> (ComponentType \<times> jsstring list) list" where
  "archNode ent ic st =
     (let component = snd ic;
          safeId = sanitizeId (ent (fst ic)) (comp_id component);
          nodeShape = getNodeShape (comp_type component);
          label = sanitizeLabel (comp_name component);
          tech = map_option (\<lambda>ts. join (js '', '') (map sanitizeLabel (take 2 ts)))
                   (technologies component);
          fullLabel = (case tech of
                         None \<Rightarrow> label
                       | Some t \<Rightarrow> if t \<noteq> [] then label @ js ''<br/><small>'' @ t @ js ''</small>''
                                   else label)
      in (fst st @ [js ''    '' @ safeId @ fst nodeShape @ [0x22] @ fullLabel @ [0x22] @ snd nodeShape],
          groupPush (comp_type component) safeId (snd st)))"

definition addConnection ::
    "jsstring \<Rightarrow> jsstring \<Rightarrow> jsstring list \<times> jsstring list \<Rightarrow> jsstring list \<times> jsstring list" where
  "addConnection fromId toId st =
     (let connectionKey = fromId @ js ''-'' @ toId;
          reverseKey = toId @ js ''-'' @ fromId
      in if connectionKey \<notin> set (snd st) \<and> reverseKey \<notin> set (snd st)
         then (fst st @ [js ''    '' @ fromId @ js '' --> '' @ toId], snd st @ [connectionKey])
         else st)"

definition archConnections ::
    "(jsstring \<rightharpoonup> jsstring) \<Rightarrow> ArchitectureComponent \<Rightarrow>
     jsstring list \<times> jsstring list \<Rightarrow> jsstring list \<times> jsstring list" where
  "archConnections idMap component st =
     (case idMap (comp_id component) of
        None \<Rightarrow> st
      | Some fromId \<Rightarrow>
          if fromId = [] then st
          else fold (\<lambda>targetId st'.
                       case idMap targetId of
                         None \<Rightarrow> st'
                       | Some toId \<Rightarrow> if toId = [] then st' else addConnection fromId toId st')
                 (case connections component of None \<Rightarrow> [] | Some cs \<Rightarrow> cs) st)"

definition generateArchitectureDiagram ::
    "(nat \<Rightarrow> entropy) \<Rightarrow> nat \<Rightarrow> ArchitectureComponent list \<Rightarrow> MermaidDiagram \<times> nat" where
  "generateArchitectureDiagram ent k comps =
     (if comps = [] then
        (\<lparr>diagramType = js ''flowchart'', title = js ''System Architecture'',
          code = js ''flowchart TD'' @ [0x0A] @ js ''    empty[No architecture data available]''\<rparr>, k)
      else
        (let n = length comps;
             (lines, typeGroups) =
               fold (archNode ent) (zip [k ..< k + n] comps) ([js ''flowchart TD''], []);
             idMap = fold (\<lambda>ic m. m(comp_id (snd ic) \<mapsto> sanitizeId (ent (fst ic)) (comp_id (snd ic))))
                       (zip [k + n ..< k + 2 * n] comps) Map.empty;
             (lines, addedConnections) = fold (archConnections idMap) comps (lines, []);
             lines = lines @
               [[],
                js ''    classDef frontend fill:#3b82f6,stroke:#1d4ed8,color:#fff'',
                js ''    classDef backend fill:#10b981,stroke:#059669,color:#fff'',
                js ''    classDef database fill:#8b5cf6,stroke:#6d28d9,color:#fff'',
                js ''    classDef service fill:#f59e0b,stroke:#d97706,color:#fff'',
                js ''    classDef external fill:#6b7280,stroke:#4b5563,color:#fff'',
                js ''    classDef middleware fill:#ec4899,stroke:#db2777,color:#fff''];
             lines = lines @
               map (\<lambda>g. classLine (snd g) (componentTypeName (fst g)))
                 (filter (\<lambda>g. length (snd g) > 0) typeGroups)
         in (\<lparr>diagramType = js ''flowchart'', title = js ''System Architecture'',
              code = join [0x0A] lines\<rparr>, k + 2 * n)))"

definition flowNode ::
    "(nat \<Rightarrow> entropy) \<Rightarrow> nat \<times> DataFlowNode \<Rightarrow>
     jsstring list \<times> (FlowNodeType \<times> jsstring list) list \<times> (jsstring \<rightharpoonup> jsstring) \<Rightarrow>
     jsstring list \<times> (FlowNodeType \<times> jsstring list) list \<times> (jsstring \<rightharpoonup> jsstring)" where
  "flowNode ent inode st =
     (let node = snd inode;
          (lines, typeGroups, idMap) = st;
          safeId = sanitizeId (ent (fst inode)) (node_id node);
          style = nodeStyles (node_type node);
          label = sanitizeLabel (node_name node)
      in (lines @ [js ''    '' @ safeId @ fst style @ [0x22] @ label @ [0x22] @ snd style],
          groupPush (node_type node) safeId typeGroups,
          idMap(node_id node \<mapsto> safeId)))"

definition flowEdge :: "(jsstring \<rightharpoonup> jsstring) \<Rightarrow> DataFlowEdge \<Rightarrow> jsstring list \<Rightarrow> jsstring list" where
  "flowEdge idMap edge lines =
     (case (idMap (edge_from edge), idMap (edge_to edge)) of
        (Some fromId, Some toId) \<Rightarrow>
          if fromId = [] \<or> toId = [] then lines
          else (case edge_label edge of
                  None \<Rightarrow> lines @ [js ''    '' @ fromId @ js '' --> '' @ toId]
                | Some l \<Rightarrow>
                    if l = [] then lines @ [js ''    '' @ fromId @ js '' --> '' @ toId]
                    else lines @ [js ''    '' @ fromId @ js '' -->|'' @ [0x22] @ sanitizeLabel l
                                  @ [0x22] @ js ''| '' @ toId])
      | _ \<Rightarrow> lines)"

definition generateDataFlowDiagram ::
    "(nat \<Rightarrow> entropy) \<Rightarrow> nat \<Rightarrow> DataFlowNode list \<Rightarrow> DataFlowEdge list \<Rightarrow> MermaidDiagram \<times> nat" where
  "generateDataFlowDiagram ent k ns es =
     (if ns = [] then
        (\<lparr>diagramType = js ''flowchart'', title = js ''Data Flow'',
          code = js ''flowchart LR'' @ [0x0A] @ js ''    empty[No data flow available]''\<rparr>, k)
      else
        (let n = length ns;
             (lines, typeGroups, idMap) =
               fold (flowNode ent) (zip [k ..< k + n] ns) ([js ''flowchart LR''], [], Map.empty);
             lines = fold (flowEdge idMap) es lines;
             lines = lines @
               [[],
                js ''    classDef source fill:#22c55e,stroke:#16a34a,color:#fff'',
                js ''    classDef process fill:#3b82f6,stroke:#2563eb,color:#fff'',
                js ''    classDef store fill:#8b5cf6,stroke:#7c3aed,color:#fff'',
                js ''    classDef output fill:#f97316,stroke:#ea580c,color:#fff''];
             lines = lines @
               map (\<lambda>g. classLine (snd g) (flowNodeTypeName (fst g)))
                 (filter (\<lambda>g. length (snd g) > 0) typeGroups)
         in (\<lparr>diagramType = js ''flowchart'', title = js ''Data Flow'',
              code = join [0x0A] lines\<rparr>, k + n)))"

definition sequenceParticipant ::
    "(nat \<Rightarrow> entropy) \<Rightarrow> nat \<times> DataFlowNode \<Rightarrow>
     jsstring list \<times> (jsstring \<rightharpoonup> jsstring) \<Rightarrow> jsstring list \<times> (jsstring \<rightharpoonup> jsstring)" where
  "sequenceParticipant ent inode st =
     (let node = snd inode;
          safeId = sanitizeId (ent (fst inode)) (node_id node);
          safeLabel = sanitizeLabel (node_name node)
      in (fst st @ [js ''    participant '' @ safeId @ js '' as '' @ safeLabel],
          (snd st)(node_id node \<mapsto> safeId)))"

text \<open>\<open>a || b || "data"\<close> on optional strings: the first one that is present and not empty.\<close>

definition firstTruthy :: "jsstring option \<Rightarrow> jsstring option \<Rightarrow> jsstring \<Rightarrow> jsstring" where
  "firstTruthy a b d =
     (case a of
        Some x \<Rightarrow> if x \<noteq> [] then x else (case b of Some y \<Rightarrow> if y \<noteq> [] then y else d | None \<Rightarrow> d)
      | None \<Rightarrow> (case b of Some y \<Rightarrow> if y \<noteq> [] then y else d | None \<Rightarrow> d))"

definition sequenceEdge :: "(jsstring \<rightharpoonup> jsstring) \<Rightarrow> DataFlowEdge \<Rightarrow> jsstring list \<Rightarrow> jsstring list" where
  "sequenceEdge idMap edge lines =
     (case (idMap (edge_from edge), idMap (edge_to edge)) of
        (Some fromId, Some toId) \<Rightarrow>
          if fromId = [] \<or> toId = [] then lines
          else (let label = sanitizeLabel (firstTruthy (edge_label edge) (edge_dataType edge) (js ''data''))
                in lines @ [js ''    '' @ fromId @ js ''->>+'' @ toId @ js '': '' @ label])
      | _ \<Rightarrow> lines)"

definition generateSequenceDiagram ::
    "(nat \<Rightarrow> entropy) \<Rightarrow> nat \<Rightarrow> DataFlowNode list \<Rightarrow> DataFlowEdge list \<Rightarrow> MermaidDiagram \<times> nat" where
  "generateSequenceDiagram ent k ns es =
     (if ns = [] \<or> es = [] then
        (\<lparr>diagramType = js ''sequenceDiagram'', title = js ''Sequence Diagram'',
          code = js ''sequenceDiagram'' @ [0x0A]
                   @ js ''    Note over System: No sequence data available''\<rparr>, k)
      else
        (let n = length ns;
             (lines, idMap) =
               fold (sequenceParticipant ent) (zip [k ..< k + n] ns) ([js ''sequenceDiagram''], Map.empty);
             lines = lines @ [[]];
             lines = fold (sequenceEdge idMap) es lines
         in (\<lparr>diagramType = js ''sequenceDiagram'', title = js ''Sequence Diagram'',
              code = join [0x0A] lines\<rparr>, k + n)))"

text \<open>
  \<open>processDiagrams\<close>: for each of the three slots, the diagram of the generative backend
  when it is present and passes \<open>validateMermaidSyntax\<close>, else a generated one when the
  structured data is there, else nothing (the slot stays \<open>undefined\<close>).
\<close>

definition aiDiagramOk :: "MermaidDiagram option \<Rightarrow> bool" where
  "aiDiagramOk d = (case d of None \<Rightarrow> False | Some x \<Rightarrow> validateMermaidSyntax (Some (code x)))"

definition processDiagrams ::
    "(nat \<Rightarrow> entropy) \<Rightarrow> DiagramsData option \<Rightarrow> ArchitectureComponent list option \<Rightarrow>
     DataFlow option \<Rightarrow> DiagramsData" where
  "processDiagrams ent aiDiagrams arch flow =
     (let aiArchitecture = (case aiDiagrams of None \<Rightarrow> None | Some a \<Rightarrow> architecture a);
          aiDataFlow = (case aiDiagrams of None \<Rightarrow> None | Some a \<Rightarrow> dataFlow a);
          aiComponents = (case aiDiagrams of None \<Rightarrow> None | Some a \<Rightarrow> components a);
          flowNodes = (case flow of None \<Rightarrow> None | Some f \<Rightarrow> nodes f);
          flowEdges = (case flow of None \<Rightarrow> None | Some f \<Rightarrow> edges f);
          (r1, k1) =
            (if aiDiagramOk aiArchitecture then (aiArchitecture, 0)
             else case arch of
                    Some cs \<Rightarrow> if length cs > 0
                               then (let (d, k) = generateArchitectureDiagram ent 0 cs in (Some d, k))
                               else (None, 0)
                  | None \<Rightarrow> (None, 0));
          (r2, k2) =
            (if aiDiagramOk aiDataFlow then (aiDataFlow, k1)
             else case flowNodes of
                    Some ns \<Rightarrow> if length ns > 0
                               then (let (d, k) = generateDataFlowDiagram ent k1 ns
                                                    (case flowEdges of None \<Rightarrow> [] | Some es \<Rightarrow> es)
                                     in (Some d, k))
                               else (None, k1)
                  | None \<Rightarrow> (None, k1));
          r3 =
            (if aiDiagramOk aiComponents then aiComponents
             else case (flowNodes, flowEdges) of
                    (Some ns, Some es) \<Rightarrow>
                      if length ns > 0 \<and> length es > 0
                      then Some (fst (generateSequenceDiagram ent k2 ns es))
                      else None
                  | _ \<Rightarrow> None)
      in \<lparr>architecture = r1, dataFlow = r2, components = r3\<rparr>)"

text \<open>The body of the inner loop of the connections, as a function of the target.\<close>

definition connectTarget ::
    "(jsstring \<rightharpoonup> jsstring) \<Rightarrow> jsstring \<Rightarrow> jsstring \<Rightarrow>
     jsstring list \<times> jsstring list \<Rightarrow> jsstring list \<times> jsstring list" where
  "connectTarget idMap a = (\<lambda>targetId st'.
                       case idMap targetId of
                         None \<Rightarrow> st'
                       | Some toId \<Rightarrow> if toId = [] then st' else addConnection a toId st')"

text \<open>A clock and a random source for concrete runs, and two small inputs.\<close>

definition fixedEntropy :: "nat \<Rightarrow> entropy" where
  "fixedEntropy n = (1700000000000 + n, js ''0.4fzyo82mvyr'')"

definition laterEntropy :: "nat \<Rightarrow> entropy" where
  "laterEntropy n = (1700000360000 + 7 * n, js ''0.k2x9c01'')"

definition webComponent :: ArchitectureComponent where
  "webComponent =
     \<lparr>comp_id = js ''web app'', comp_name = js ''Web (UI)'', comp_type = Frontend,
      technologies = Some [js ''React'', js ''Next.js'', js ''Tailwind''],
      connections = Some [js ''api'']\<rparr>"

definition apiComponent :: ArchitectureComponent where
  "apiComponent =
     \<lparr>comp_id = js ''api'', comp_name = js ''API'', comp_type = Backend,
      technologies = None, connections = Some [js ''web app'']\<rparr>"

section \<open>Request admission (app/api/analyze/route.ts, POST)\<close>

text \<open>
  A request as the handler reads it: \<open>headers\<close> is \<open>request.headers.get\<close> (header names in
  lower case, \<open>None\<close> for \<open>null\<close>) and \<open>body\<close> is the body as it is sent, a sequence of
  bytes (numbers below 256). Its size is its number of bytes.
\<close>

record request =
  headers :: "jsstring \<rightharpoonup> jsstring"
  body :: "nat list"

text \<open>
  \<open>request.text()\<close> decodes the body as UTF-8: a byte below 0x80 is one code unit, a
  well-formed sequence of two or three bytes is one code unit, one of four bytes is a
  surrogate pair, and every ill-formed or truncated sequence gives U+FFFD, the decoder
  going on at the byte that did not fit. A byte order mark at the start is dropped.
\<close>

definition isContinuation :: "nat \<Rightarrow> bool" where
  "isContinuation c \<longleftrightarrow> 0x80 \<le> c \<and> c \<le> 0xBF"

text \<open>The range of the second byte after the lead byte \<open>b\<close> of a sequence of three or four.\<close>

definition secondByteOk :: "nat \<Rightarrow> nat \<Rightarrow> bool" where
  "secondByteOk b c \<longleftrightarrow>
     (if b = 0xE0 then 0xA0 \<le> c \<and> c \<le> 0xBF
      else if b = 0xED then 0x80 \<le> c \<and> c \<le> 0x9F
      else if b = 0xF0 then 0x90 \<le> c \<and> c \<le> 0xBF
      else if b = 0xF4 then 0x80 \<le> c \<and> c \<le> 0x8F
      else 0x80 \<le> c \<and> c \<le> 0xBF)"

definition surrogates :: "nat \<Rightarrow> jsstring" where
  "surrogates cp = [0xD800 + (cp - 0x10000) div 0x400, 0xDC00 + (cp - 0x10000) mod 0x400]"

fun utf8Units :: "nat list \<Rightarrow> jsstring" where
  "utf8Units [] = []"
| "utf8Units (b # bs) =
     (if b < 0x80 then b # utf8Units bs
      else if 0xC2 \<le> b \<and> b \<le> 0xDF then
        (case bs of
           [] \<Rightarrow> [0xFFFD]
         | c # cs \<Rightarrow>
             if isContinuation c then ((b - 0xC0) * 0x40 + (c - 0x80)) # utf8Units cs
             else 0xFFFD # utf8Units bs)
      else if 0xE0 \<le> b \<and> b \<le> 0xEF then
        (case bs of
           [] \<Rightarrow> [0xFFFD]
         | c # cs \<Rightarrow>
             if secondByteOk b c then
               (case cs of
                  [] \<Rightarrow> [0xFFFD]
                | d # ds \<Rightarrow>
                    if isContinuation d then
                      ((b - 0xE0) * 0x1000 + (c - 0x80) * 0x40 + (d - 0x80)) # utf8Units ds
                    else 0xFFFD # utf8Units cs)
             else 0xFFFD # utf8Units bs)
      else if 0xF0 \<le> b \<and> b \<le> 0xF4 then
        (case bs of
           [] \<Rightarrow> [0xFFFD]
         | c # cs \<Rightarrow>
             if secondByteOk b c then
               (case cs of
                  [] \<Rightarrow> [0xFFFD]
                | d # ds \<Rightarrow>
                    if isContinuation d then
                      (case ds of
                         [] \<Rightarrow> [0xFFFD]
                       | e # es \<Rightarrow>
                           if isContinuation e then
                             surrogates ((b - 0xF0) * 0x40000 + (c - 0x80) * 0x1000
                                         + (d - 0x80) * 0x40 + (e - 0x80))
                             @ utf8Units es
                           else 0xFFFD # utf8Units ds)
                    else 0xFFFD # utf8Units cs)
             else 0xFFFD # utf8Units bs)
      else 0xFFFD # utf8Units bs)"

definition utf8Decode :: "nat list \<Rightarrow> jsstring" where
  "utf8Decode bs =
     utf8Units (if take 3 bs = [0xEF, 0xBB, 0xBF] then drop 3 bs else bs)"

text \<open>\<open>if (h)\<close> on a header value: present and not empty.\<close>

definition present :: "jsstring option \<Rightarrow> jsstring option" where
  "present h = (case h of None \<Rightarrow> None | Some s \<Rightarrow> if s = [] then None else Some s)"

text \<open>\<open>s.split(",")[0]\<close>: the text before the first comma.\<close>

definition firstOfList :: "jsstring \<Rightarrow> jsstring" where
  "firstOfList s = takeWhile (\<lambda>c. c \<noteq> 0x2C) s"

definition getClientIP :: "request \<Rightarrow> jsstring" where
  "getClientIP request =
     (case present (headers request (js ''cf-connecting-ip'')) of
        Some cfIP \<Rightarrow> cfIP
      | None \<Rightarrow>
     (case present (headers request (js ''x-vercel-forwarded-for'')) of
        Some vercelIP \<Rightarrow> trim (firstOfList vercelIP)
      | None \<Rightarrow>
     (case present (headers request (js ''x-forwarded-for'')) of
        Some forwarded \<Rightarrow> trim (firstOfList forwarded)
      | None \<Rightarrow>
     (case present (headers request (js ''x-real-ip'')) of
        Some realIP \<Rightarrow> realIP
      | None \<Rightarrow> js ''unknown''))))"

text \<open>
  \<open>parseInt(s)\<close> with no radix: leading white space is skipped, a sign is read, a prefix
  \<open>0x\<close> or \<open>0X\<close> selects radix 16, and the longest run of digits is the value; with no
  digit the result is \<open>NaN\<close>, here \<open>None\<close>. The source holds the value as a double; the
  rounding of a long run of digits keeps every comparison with 10240.
\<close>

definition digitValue :: "nat \<Rightarrow> nat option" where
  "digitValue c =
     (if 0x30 \<le> c \<and> c \<le> 0x39 then Some (c - 0x30)
      else if 0x61 \<le> c \<and> c \<le> 0x7A then Some (c - 0x61 + 10)
      else if 0x41 \<le> c \<and> c \<le> 0x5A then Some (c - 0x41 + 10)
      else None)"

definition isDigitIn :: "nat \<Rightarrow> nat \<Rightarrow> bool" where
  "isDigitIn radix c = (case digitValue c of None \<Rightarrow> False | Some v \<Rightarrow> v < radix)"

definition digitsValue :: "nat \<Rightarrow> jsstring \<Rightarrow> nat" where
  "digitsValue radix ds =
     foldl (\<lambda>acc c. acc * radix + (case digitValue c of None \<Rightarrow> 0 | Some v \<Rightarrow> v)) 0 ds"

definition parseInt :: "jsstring \<Rightarrow> int option" where
  "parseInt s =
     (let s1 = dropWhile isWhiteSpace s;
          negative = (s1 \<noteq> [] \<and> hd s1 = 0x2D);
          s2 = (if s1 \<noteq> [] \<and> (hd s1 = 0x2D \<or> hd s1 = 0x2B) then tl s1 else s1);
          hex = (length s2 \<ge> 2 \<and> hd s2 = 0x30 \<and> (s2 ! 1 = 0x78 \<or> s2 ! 1 = 0x58));
          radix = (if hex then 16 else 10);
          s3 = (if hex then drop 2 s2 else s2);
          ds = takeWhile (isDigitIn radix) s3
      in if ds = [] then None
         else Some ((if negative then - 1 else 1) * int (digitsValue radix ds)))"

definition MAX_BODY_SIZE :: nat where
  "MAX_BODY_SIZE = 10 * 1024"

text \<open>
  A response: the error responses of the handler by status, body text and headers, or what
  the analysis (lines after the admission checks, with its own error handler) returns.
\<close>

datatype 'a response =
    ErrorResponse nat jsstring "(jsstring \<times> jsstring) list"
  | Analysis 'a

text \<open>
  \<open>isConfigured()\<close> (from \<open>./config\<close>), \<open>JSON.parse\<close> (\<open>None\<close> when it throws) and the
  analysis that follows the admission checks (validation, the fetches from the hosting API,
  the generative backend) are parameters. The only server state is the rate limiter's.
\<close>

definition POST ::
    "bool \<Rightarrow> RateLimitConfig \<Rightarrow> int \<Rightarrow> (jsstring \<Rightarrow> 'j option) \<Rightarrow>
     ('j \<Rightarrow> RateLimitResult \<Rightarrow> 'a) \<Rightarrow> request \<Rightarrow> limiter \<Rightarrow> 'a response \<times> limiter" where
  "POST isConfigured cfg now JSON_parse analysis request st =
     (if \<not> isConfigured then
        (ErrorResponse 503 (js ''Server is not properly configured.'') [], st)
      else
        (let clientIP = getClientIP request;
             (rateLimit, st') = checkRateLimit cfg now clientIP st
         in if \<not> allowed rateLimit then
              (ErrorResponse 429 (js ''Too many requests. Please try again later.'')
                 [(js ''Retry-After'', js ''60'')], st')
            else
              (let contentLength = headers request (js ''content-length'')
               in if (case present contentLength of
                        None \<Rightarrow> False
                      | Some l \<Rightarrow> (case parseInt l of None \<Rightarrow> False
                                   | Some n \<Rightarrow> n > int MAX_BODY_SIZE)) then
                    (ErrorResponse 413 (js ''Request body too large'') [], st')
                  else
                    (let rawBody = utf8Decode (body request)
                     in if length rawBody > MAX_BODY_SIZE then
                          (ErrorResponse 413 (js ''Request body too large'') [], st')
                        else
                          (case JSON_parse rawBody of
                             None \<Rightarrow> (ErrorResponse 400 (js ''Invalid JSON in request body'') [], st')
                           | Some b \<Rightarrow> (Analysis (analysis b rateLimit), st'))))))"

text \<open>The two size checks of the handler, as it makes them.\<close>

definition sizeCheckFires :: "request \<Rightarrow> bool" where
  "sizeCheckFires request \<longleftrightarrow>
     (case present (headers request (js ''content-length'')) of
        None \<Rightarrow> False
      | Some l \<Rightarrow> (case parseInt l of None \<Rightarrow> False | Some n \<Rightarrow> n > int MAX_BODY_SIZE))
     \<or> length (utf8Decode (body request)) > MAX_BODY_SIZE"

text \<open>Concrete collaborators and inputs: a limiter configuration, a parser, an analysis, two requests.\<close>

definition exampleConfig :: RateLimitConfig where
  "exampleConfig = \<lparr>WINDOW_MS = 60000, MAX_REQUESTS = 2\<rparr>"


definition acceptingParser :: "jsstring \<Rightarrow> unit option" where
  "acceptingParser s = Some ()"

definition countingAnalysis :: "unit \<Rightarrow> RateLimitResult \<Rightarrow> int" where
  "countingAnalysis b r = remaining r"


definition bigChunkedRequest :: request where
  "bigChunkedRequest = \<lparr>headers = Map.empty, body = replicate 11264 0x61\<rparr>"


section \<open>Stream consumer (hooks/use-analysis.ts, analyze)\<close>

text \<open>
  Values as the consumer handles them: what \<open>JSON.parse\<close> returns, and \<open>undefined\<close>. An
  object is the list of its properties in insertion order.
\<close>

datatype jsval =
    Undefined
  | Null
  | Boolean bool
  | Number rat
  | String jsstring
  | Array "jsval list"
  | Object "(jsstring \<times> jsval) list"

type_synonym jsobject = "(jsstring \<times> jsval) list"

text \<open>\<open>o.k\<close> on an object; \<open>v.k\<close> on a value (\<open>undefined\<close> when \<open>v\<close> has no such property).\<close>

definition getProp :: "jsobject \<Rightarrow> jsstring \<Rightarrow> jsval" where
  "getProp obj k = (case map_of obj k of None \<Rightarrow> Undefined | Some v \<Rightarrow> v)"

definition member :: "jsval \<Rightarrow> jsstring \<Rightarrow> jsval" where
  "member v k = (case v of Object obj \<Rightarrow> getProp obj k | _ \<Rightarrow> Undefined)"

text \<open>Writing a property: in place when the key exists, at the end otherwise.\<close>

fun setProp :: "jsstring \<Rightarrow> jsval \<Rightarrow> jsobject \<Rightarrow> jsobject" where
  "setProp k v [] = [(k, v)]"
| "setProp k v ((k', v') # rest) =
     (if k = k' then (k', v) # rest else (k', v') # setProp k v rest)"

text \<open>An object literal \<open>{...a, k1: v1, ...}\<close>: the properties are written in order.\<close>

definition setProps :: "jsobject \<Rightarrow> jsobject \<Rightarrow> jsobject" where
  "setProps props obj = fold (\<lambda>kv acc. setProp (fst kv) (snd kv) acc) props obj"

definition truthy :: "jsval \<Rightarrow> bool" where
  "truthy v =
     (case v of
        Undefined \<Rightarrow> False
      | Null \<Rightarrow> False
      | Boolean b \<Rightarrow> b
      | Number n \<Rightarrow> n \<noteq> 0
      | String s \<Rightarrow> s \<noteq> []
      | Array xs \<Rightarrow> True
      | Object obj \<Rightarrow> True)"

text \<open>\<open>a || b\<close>\<close>

definition orElse :: "jsval \<Rightarrow> jsval \<Rightarrow> jsval" where
  "orElse a b = (if truthy a then a else b)"

text \<open>
  \<open>s.match(/\{[\s\S]*\}/)\<close>: the text from the first opening brace to the last closing
  brace after it, when there is one.
\<close>

definition matchBraces :: "jsstring \<Rightarrow> jsstring option" where
  "matchBraces s =
     (let fromOpen = dropWhile (\<lambda>c. c \<noteq> 0x7B) s
      in if fromOpen = [] then None
         else (let inner = rev (dropWhile (\<lambda>c. c \<noteq> 0x7D) (rev (tl fromOpen)))
               in if inner = [] then None else Some (0x7B # inner)))"

text \<open>
  A frame of the stream after \<open>JSON.parse(line.slice(6))\<close>, by its \<open>type\<close>: the payload of
  a metadata frame, the text of a content or error frame, the done frame, and any other
  value.
\<close>

datatype frame =
    MetadataFrame jsval
  | ContentFrame jsstring
  | ErrorFrame jsstring
  | DoneFrame
  | OtherFrame

datatype stage = Idle | Fetching | Analyzing | Complete | Failed

text \<open>
  The state of one run of \<open>analyze\<close> while it reads the stream: the local variables
  \<open>currentResult\<close> and \<open>aiContent\<close>, the stage and the progress of the status, the branch
  set by \<open>setCurrentBranch\<close>, and the calls made to the two collaborators that are not part
  of the sources at hand, in order: the arguments of \<open>updateResult\<close> (analysis context) and
  of \<open>analysisStorage.set\<close> (repository name, result, branch). Neither call is taken to throw.
\<close>

record consumer =
  currentResult :: jsobject
  aiContent :: jsstring
  statusStage :: stage
  statusProgress :: rat
  currentBranch :: jsval
  updateResultCalls :: "jsobject list"
  storageSetCalls :: "(jsval \<times> jsobject \<times> jsval) list"

definition updateResult :: "jsobject \<Rightarrow> consumer \<Rightarrow> consumer" where
  "updateResult r st = st\<lparr>updateResultCalls := updateResultCalls st @ [r]\<rparr>"

text \<open>
  \<^verbatim>\<open>if (currentResult.metadata?.fullName) analysisStorage.set(fullName, result, branch)\<close>
\<close>

definition saveToCache :: "jsobject \<Rightarrow> consumer \<Rightarrow> consumer" where
  "saveToCache r st =
     (let fullName = member (getProp (currentResult st) (js ''metadata'')) (js ''fullName'')
      in if truthy fullName then
           st\<lparr>storageSetCalls := storageSetCalls st
                 @ [(fullName, r, getProp (currentResult st) (js ''branch''))]\<rparr>
         else st)"

definition finalResult :: "jsobject \<Rightarrow> jsobject \<Rightarrow> jsobject" where
  "finalResult current analysisData =
     setProps
       [(js ''summary'', orElse (getProp analysisData (js ''summary'')) (String [])),
        (js ''insights'', orElse (getProp analysisData (js ''insights'')) (Array [])),
        (js ''scores'', getProp analysisData (js ''scores'')),
        (js ''refactors'', orElse (getProp analysisData (js ''refactors'')) (Array [])),
        (js ''automations'', orElse (getProp analysisData (js ''automations'')) (Array [])),
        (js ''architecture'', orElse (getProp analysisData (js ''architecture'')) (Array [])),
        (js ''dataFlow'', orElse (getProp analysisData (js ''dataFlow''))
                            (Object [(js ''nodes'', Array []), (js ''edges'', Array [])])),
        (js ''techStack'', orElse (getProp analysisData (js ''techStack'')) (Array [])),
        (js ''whatItDoes'', orElse (getProp analysisData (js ''whatItDoes'')) (String [])),
        (js ''targetAudience'', orElse (getProp analysisData (js ''targetAudience'')) (String [])),
        (js ''howToRun'', orElse (getProp analysisData (js ''howToRun'')) (Array [])),
        (js ''keyFolders'', orElse (getProp analysisData (js ''keyFolders'')) (Array [])),
        (js ''diagrams'', orElse (getProp analysisData (js ''diagrams'')) Undefined)]
       (setProps analysisData current)"

definition fallbackResult :: "jsobject \<Rightarrow> jsobject" where
  "fallbackResult current =
     setProps
       [(js ''summary'', String (js ''Analysis completed with parsing issues.'')),
        (js ''insights'', Array []),
        (js ''refactors'', Array []),
        (js ''automations'', Array []),
        (js ''architecture'', Array []),
        (js ''dataFlow'', Object [(js ''nodes'', Array []), (js ''edges'', Array [])])]
       current"

text \<open>
  The handling of one frame. \<open>JSON_parse\<close> is \<open>JSON.parse\<close> on the matched text, which
  begins with a brace: an object, or \<open>None\<close> when it throws. An exception inside the
  handling of a frame is caught by the handler of the loop body, which logs it and goes on
  to the next line; so does the \<open>throw\<close> of an error frame.
\<close>

definition handleFrame :: "(jsstring \<Rightarrow> jsobject option) \<Rightarrow> frame \<Rightarrow> consumer \<Rightarrow> consumer" where
  "handleFrame JSON_parse data st =
     (case data of
        MetadataFrame payload \<Rightarrow>
          (if payload = Undefined \<or> payload = Null then st
           else
             (let analyzedBranch = member payload (js ''branch'');
                  cur = [(js ''metadata'', member payload (js ''metadata'')),
                         (js ''fileTree'', member payload (js ''fileTree'')),
                         (js ''fileStats'', member payload (js ''fileStats'')),
                         (js ''branch'', analyzedBranch),
                         (js ''availableBranches'', member payload (js ''availableBranches''))];
                  st = st\<lparr>currentResult := cur, currentBranch := analyzedBranch\<rparr>;
                  st = updateResult cur st
              in st\<lparr>statusStage := Analyzing, statusProgress := 40\<rparr>))
      | ContentFrame text \<Rightarrow>
          (let content = aiContent st @ text
           in st\<lparr>aiContent := content, statusStage := Analyzing,
                 statusProgress := min (40 + (of_nat (length content) / 6000) * 50) 90\<rparr>)
      | ErrorFrame message \<Rightarrow> st
      | DoneFrame \<Rightarrow>
          (let st =
                 (case matchBraces (aiContent st) of
                    None \<Rightarrow> st
                  | Some jsonMatch \<Rightarrow>
                      (case JSON_parse jsonMatch of
                         Some analysisData \<Rightarrow>
                           (let r = finalResult (currentResult st) analysisData
                            in saveToCache r (updateResult r st))
                       | None \<Rightarrow>
                           (let r = fallbackResult (currentResult st)
                            in saveToCache r (updateResult r st))))
           in st\<lparr>statusStage := Complete, statusProgress := 100\<rparr>)
      | OtherFrame \<Rightarrow> st)"

definition handleFrames :: "(jsstring \<Rightarrow> jsobject option) \<Rightarrow> frame list \<Rightarrow> consumer \<Rightarrow> consumer" where
  "handleFrames JSON_parse frames st = fold (handleFrame JSON_parse) frames st"

text \<open>The state when the reading of the stream starts.\<close>

definition startOfStream :: consumer where
  "startOfStream =
     \<lparr>currentResult = [], aiContent = [], statusStage = Fetching, statusProgress = 15,
      currentBranch = Undefined, updateResultCalls = [], storageSetCalls = []\<rparr>"

text \<open>
  A concrete stream: the metadata of a repository, then narrative text, then the done
  frame; and a parser that rejects every text.
\<close>

definition sampleMetadata :: jsval where
  "sampleMetadata =
     Object [(js ''metadata'', Object [(js ''fullName'', String (js ''octo/demo'')),
                                       (js ''defaultBranch'', String (js ''main''))]),
             (js ''fileTree'', Array [Object [(js ''path'', String (js ''README.md''))]]),
             (js ''fileStats'', Object [(js ''totalFiles'', Number 1)]),
             (js ''branch'', String (js ''main'')),
             (js ''availableBranches'', Array [])]"

definition throwingParser :: "jsstring \<Rightarrow> jsobject option" where
  "throwingParser s = None"

definition plainTextStream :: "frame list" where
  "plainTextStream =
     [MetadataFrame sampleMetadata,
      ContentFrame (js ''I could not analyse ''), ContentFrame (js ''this repository.''),
      DoneFrame]"

definition brokenJsonStream :: "frame list" where
  "brokenJsonStream =
     [MetadataFrame sampleMetadata,
      ContentFrame (js ''{ summary: a demo, ''), ContentFrame (js ''insights: [ }''),
      DoneFrame]"

section \<open>Rate limiter: properties\<close>

lemma rateLimitMap_ensure [simp]:
  "rateLimitMap (ensureCleanupRunning st) = rateLimitMap st"
  by (simp add: ensureCleanupRunning_def)

lemma check_fresh:
  assumes "case rateLimitMap st ip of None \<Rightarrow> True | Some r \<Rightarrow> now > resetTime r"
  shows "allowed (fst (checkRateLimit cfg now ip st))"
    and "remaining (fst (checkRateLimit cfg now ip st)) = MAX_REQUESTS cfg - 1"
    and "rateLimitMap (snd (checkRateLimit cfg now ip st)) ip =
           Some \<lparr>count = 1, resetTime = now + WINDOW_MS cfg\<rparr>"
  using assms by (auto simp: checkRateLimit_def Let_def split: option.splits)

lemma check_inside:
  assumes "rateLimitMap st ip = Some r" and "now \<le> resetTime r"
  shows "allowed (fst (checkRateLimit cfg now ip st)) = (count r < MAX_REQUESTS cfg)"
    and "rateLimitMap (snd (checkRateLimit cfg now ip st)) ip =
           Some (if count r < MAX_REQUESTS cfg then r\<lparr>count := count r + 1\<rparr> else r)"
  using assms by (auto simp: checkRateLimit_def Let_def)

text \<open>
  Calls of other clients and firings of the cleanup timer inside the window leave the
  record of a client as it is.
\<close>

lemma check_other_client:
  "ip' \<noteq> ip \<Longrightarrow> rateLimitMap (snd (checkRateLimit cfg now ip' st)) ip = rateLimitMap st ip"
  by (auto simp: checkRateLimit_def Let_def split: option.splits)

lemma cleanup_inside_window:
  "rateLimitMap st ip = Some r \<Longrightarrow> now \<le> resetTime r \<Longrightarrow>
   rateLimitMap (cleanupExpiredRecords now st) ip = Some r"
  by (simp add: cleanupExpiredRecords_def)

lemma cleanup_removes_expired:
  "rateLimitMap st ip = Some r \<Longrightarrow> now > resetTime r \<Longrightarrow>
   rateLimitMap (cleanupExpiredRecords now st) ip = None"
  by (simp add: cleanupExpiredRecords_def)

lemma checkMany_inside:
  assumes "rateLimitMap st ip = Some r"
    and "\<forall>t \<in> set ts. t \<le> resetTime r"
    and "checkMany cfg ip ts st = (rs, st')"
  shows "length rs = length ts
       \<and> (\<forall>i < length ts. allowed (rs ! i) = (count r + int i < MAX_REQUESTS cfg))
       \<and> (\<exists>r'. rateLimitMap st' ip = Some r' \<and> resetTime r' = resetTime r)"
  using assms
proof (induction ts arbitrary: st r rs)
  case Nil
  then show ?case by simp
next
  case (Cons t ts)
  obtain res st1 where c: "checkRateLimit cfg t ip st = (res, st1)"
    by (cases "checkRateLimit cfg t ip st")
  obtain rs1 where m: "checkMany cfg ip ts st1 = (rs1, st')" and rs: "rs = res # rs1"
    using Cons.prems(3) c by (auto split: prod.splits)
  define r1 where "r1 = (if count r < MAX_REQUESTS cfg then r\<lparr>count := count r + 1\<rparr> else r)"
  have t: "t \<le> resetTime r" using Cons.prems(2) by simp
  have a: "allowed res = (count r < MAX_REQUESTS cfg)"
    using check_inside(1)[OF Cons.prems(1) t, of cfg] c by simp
  have s1: "rateLimitMap st1 ip = Some r1"
    using check_inside(2)[OF Cons.prems(1) t, of cfg] c by (simp add: r1_def)
  have rt: "resetTime r1 = resetTime r" by (simp add: r1_def)
  have cnt: "count r1 + int j < MAX_REQUESTS cfg \<longleftrightarrow> count r + int (Suc j) < MAX_REQUESTS cfg" for j
    by (auto simp: r1_def)
  have "\<forall>t \<in> set ts. t \<le> resetTime r1" using Cons.prems(2) rt by simp
  from Cons.IH[OF s1 this m]
  have ih: "length rs1 = length ts"
    "\<forall>i < length ts. allowed (rs1 ! i) = (count r1 + int i < MAX_REQUESTS cfg)"
    "\<exists>r'. rateLimitMap st' ip = Some r' \<and> resetTime r' = resetTime r"
    using rt by simp_all
  have "\<forall>i < length (t # ts). allowed (rs ! i) = (count r + int i < MAX_REQUESTS cfg)"
  proof (intro allI impI)
    fix i assume "i < length (t # ts)"
    show "allowed (rs ! i) = (count r + int i < MAX_REQUESTS cfg)"
    proof (cases i)
      case 0
      then show ?thesis using a rs by simp
    next
      case (Suc j)
      then have "j < length ts" using \<open>i < length (t # ts)\<close> by simp
      then have "allowed (rs1 ! j) = (count r1 + int j < MAX_REQUESTS cfg)" using ih(2) by blast
      then show ?thesis using Suc rs cnt by simp
    qed
  qed
  then show ?case using ih(1,3) rs by simp
qed

text \<open>
  Claim C2. With the fixed window and the fixed maximum \<open>N = MAX_REQUESTS\<close> (at least 1), a
  client that has no record, or only an expired one, calls \<open>checkRateLimit\<close> at \<open>t0\<close> and then
  at the clock values \<open>ts\<close>, none of them past the reset time \<open>t0 + WINDOW_MS\<close>. The call
  number \<open>i + 1\<close> is allowed exactly when \<open>i < N\<close>: requests 1 to N are allowed and request
  N + 1 (and every later one in the window) is rejected. A call after the reset time is
  allowed again and stores the count 1.
\<close>

theorem rate_limit_window:
  assumes "1 \<le> MAX_REQUESTS cfg"
    and "case rateLimitMap st ip of None \<Rightarrow> True | Some r \<Rightarrow> t0 > resetTime r"
    and "\<forall>t \<in> set ts. t \<le> t0 + WINDOW_MS cfg"
    and "checkMany cfg ip (t0 # ts) st = (rs, st')"
  shows "length rs = Suc (length ts)
       \<and> (\<forall>i < length rs. allowed (rs ! i) = (int i < MAX_REQUESTS cfg))
       \<and> (\<forall>t'. t' > t0 + WINDOW_MS cfg \<longrightarrow>
             allowed (fst (checkRateLimit cfg t' ip st'))
           \<and> rateLimitMap (snd (checkRateLimit cfg t' ip st')) ip =
               Some \<lparr>count = 1, resetTime = t' + WINDOW_MS cfg\<rparr>)"
proof -
  obtain res st1 where c: "checkRateLimit cfg t0 ip st = (res, st1)"
    by (cases "checkRateLimit cfg t0 ip st")
  obtain rs1 where m: "checkMany cfg ip ts st1 = (rs1, st')" and rs: "rs = res # rs1"
    using assms(4) c by (auto split: prod.splits)
  let ?r = "\<lparr>count = 1, resetTime = t0 + WINDOW_MS cfg\<rparr>"
  have a: "allowed res" using check_fresh(1)[OF assms(2), of cfg] c by simp
  have s1: "rateLimitMap st1 ip = Some ?r" using check_fresh(3)[OF assms(2), of cfg] c by simp
  have "\<forall>t \<in> set ts. t \<le> resetTime ?r" using assms(3) by simp
  from checkMany_inside[OF s1 this m]
  have ih: "length rs1 = length ts"
    "\<forall>i < length ts. allowed (rs1 ! i) = (count ?r + int i < MAX_REQUESTS cfg)"
    "\<exists>r'. rateLimitMap st' ip = Some r' \<and> resetTime r' = resetTime ?r"
    by simp_all
  have len: "length rs = Suc (length ts)" using ih(1) rs by simp
  have win: "\<forall>i < length rs. allowed (rs ! i) = (int i < MAX_REQUESTS cfg)"
  proof (intro allI impI)
    fix i assume i: "i < length rs"
    show "allowed (rs ! i) = (int i < MAX_REQUESTS cfg)"
    proof (cases i)
      case 0
      then show ?thesis using a rs assms(1) by simp
    next
      case (Suc j)
      then have "j < length ts" using i len by simp
      then have "allowed (rs1 ! j) = (count ?r + int j < MAX_REQUESTS cfg)" using ih(2) by blast
      then show ?thesis using Suc rs by auto
    qed
  qed
  have after: "\<forall>t'. t' > t0 + WINDOW_MS cfg \<longrightarrow>
             allowed (fst (checkRateLimit cfg t' ip st'))
           \<and> rateLimitMap (snd (checkRateLimit cfg t' ip st')) ip =
               Some \<lparr>count = 1, resetTime = t' + WINDOW_MS cfg\<rparr>"
  proof (intro allI impI)
    fix t' assume t': "t' > t0 + WINDOW_MS cfg"
    from ih(3) obtain r' where r': "rateLimitMap st' ip = Some r'" "resetTime r' = t0 + WINDOW_MS cfg"
      by auto
    have "case rateLimitMap st' ip of None \<Rightarrow> True | Some r \<Rightarrow> t' > resetTime r"
      using r' t' by simp
    from check_fresh(1)[OF this, of cfg] check_fresh(3)[OF this, of cfg]
    show "allowed (fst (checkRateLimit cfg t' ip st'))
           \<and> rateLimitMap (snd (checkRateLimit cfg t' ip st')) ip =
               Some \<lparr>count = 1, resetTime = t' + WINDOW_MS cfg\<rparr>" by simp
  qed
  show ?thesis using len win after by blast
qed

theorem rate_limit_window_witness:
  "1 \<le> MAX_REQUESTS \<lparr>WINDOW_MS = 60000, MAX_REQUESTS = 2\<rparr>
   \<and> map allowed (fst (checkMany \<lparr>WINDOW_MS = 60000, MAX_REQUESTS = 2\<rparr> (js ''a'')
        [1000, 1500, 61000] initialLimiter)) = [True, True, False]
   \<and> allowed (fst (checkRateLimit \<lparr>WINDOW_MS = 60000, MAX_REQUESTS = 2\<rparr> 61001 (js ''a'')
        (snd (checkMany \<lparr>WINDOW_MS = 60000, MAX_REQUESTS = 2\<rparr> (js ''a'')
        [1000, 1500, 61000] initialLimiter))))"
proof -
  let ?cfg = "\<lparr>WINDOW_MS = 60000, MAX_REQUESTS = 2\<rparr>"
  let ?run = "checkMany ?cfg (js ''a'') [1000, 1500, 61000] initialLimiter"
  have h1: "1 \<le> MAX_REQUESTS ?cfg" by simp
  have h2: "case rateLimitMap initialLimiter (js ''a'') of None \<Rightarrow> True | Some r \<Rightarrow> 1000 > resetTime r"
    by (simp add: initialLimiter_def)
  have h3: "\<forall>t \<in> set [1500, 61000]. t \<le> 1000 + WINDOW_MS ?cfg" by simp
  have h4: "?run = (fst ?run, snd ?run)" by simp
  have ev: "map allowed (fst ?run) = [True, True, False]"
    by (simp add: checkRateLimit_def ensureCleanupRunning_def initialLimiter_def)
  from rate_limit_window [OF h1 h2 h3 h4]
  have "\<forall>t'. t' > 1000 + WINDOW_MS ?cfg \<longrightarrow> allowed (fst (checkRateLimit ?cfg t' (js ''a'') (snd ?run)))"
    by blast
  then have "allowed (fst (checkRateLimit ?cfg 61001 (js ''a'') (snd ?run)))" by simp
  then show ?thesis using h1 ev by blast
qed

text \<open>
  Claim C3. A rejected call of \<open>checkRateLimit\<close> leaves the map of records as it was, so the
  client's count is not incremented and its reset time is not modified; the rejection only
  happens for a client whose record is inside its window with a count at or above the maximum.
\<close>

theorem reject_leaves_record:
  assumes "\<not> allowed (fst (checkRateLimit cfg now ip st))"
  shows "rateLimitMap (snd (checkRateLimit cfg now ip st)) = rateLimitMap st
       \<and> remaining (fst (checkRateLimit cfg now ip st)) = 0
       \<and> (\<exists>r. rateLimitMap st ip = Some r \<and> now \<le> resetTime r \<and> MAX_REQUESTS cfg \<le> count r)"
  using assms
  by (auto simp: checkRateLimit_def Let_def split: option.splits if_splits)

theorem reject_leaves_record_witness:
  "\<not> allowed (fst (checkRateLimit \<lparr>WINDOW_MS = 60000, MAX_REQUESTS = 1\<rparr> 5 (js ''10.0.0.7'')
        \<lparr>rateLimitMap = [js ''10.0.0.7'' \<mapsto> \<lparr>count = 1, resetTime = 60000\<rparr>], cleanupInterval = True\<rparr>))
   \<and> rateLimitMap (snd (checkRateLimit \<lparr>WINDOW_MS = 60000, MAX_REQUESTS = 1\<rparr> 5 (js ''10.0.0.7'')
        \<lparr>rateLimitMap = [js ''10.0.0.7'' \<mapsto> \<lparr>count = 1, resetTime = 60000\<rparr>], cleanupInterval = True\<rparr>))
       (js ''10.0.0.7'') = Some \<lparr>count = 1, resetTime = 60000\<rparr>"
proof -
  have h: "\<not> allowed (fst (checkRateLimit \<lparr>WINDOW_MS = 60000, MAX_REQUESTS = 1\<rparr> 5 (js ''10.0.0.7'')
        \<lparr>rateLimitMap = [js ''10.0.0.7'' \<mapsto> \<lparr>count = 1, resetTime = 60000\<rparr>], cleanupInterval = True\<rparr>))"
    by (simp add: checkRateLimit_def ensureCleanupRunning_def)
  show ?thesis using h reject_leaves_record [OF h] by simp
qed

lemma recordsInRangeD:
  "recordsInRange cfg st \<Longrightarrow> rateLimitMap st ip = Some r \<Longrightarrow>
   1 \<le> count r \<and> count r \<le> MAX_REQUESTS cfg"
  unfolding recordsInRange_def by blast

lemma recordsInRange_check:
  assumes "1 \<le> MAX_REQUESTS cfg" and "recordsInRange cfg st"
  shows "recordsInRange cfg (snd (checkRateLimit cfg now ip st))"
  unfolding recordsInRange_def
proof (intro allI impI)
  fix ip' r
  assume a: "rateLimitMap (snd (checkRateLimit cfg now ip st)) ip' = Some r"
  show "1 \<le> count r \<and> count r \<le> MAX_REQUESTS cfg"
  proof (cases "ip' = ip")
    case False
    then have "rateLimitMap st ip' = Some r"
      using a by (auto simp: checkRateLimit_def Let_def split: option.splits if_splits)
    then show ?thesis using assms(2) recordsInRangeD by blast
  next
    case True
    show ?thesis
    proof (cases "rateLimitMap st ip")
      case None
      then show ?thesis using a True assms(1) by (auto simp: checkRateLimit_def Let_def)
    next
      case (Some r0)
      then have "1 \<le> count r0 \<and> count r0 \<le> MAX_REQUESTS cfg"
        using assms(2) recordsInRangeD by blast
      then show ?thesis using a True Some assms(1)
        by (auto simp: checkRateLimit_def Let_def split: if_splits)
    qed
  qed
qed

lemma recordsInRange_cleanup:
  "recordsInRange cfg st \<Longrightarrow> recordsInRange cfg (cleanupExpiredRecords now st)"
  unfolding recordsInRange_def
  by (auto simp: cleanupExpiredRecords_def split: option.splits if_splits)

lemma recordsInRange_execCalls:
  "1 \<le> MAX_REQUESTS cfg \<Longrightarrow> recordsInRange cfg st \<Longrightarrow> recordsInRange cfg (execCalls cfg cs st)"
proof (induction cs arbitrary: st)
  case Nil
  then show ?case by simp
next
  case (Cons c cs)
  have "recordsInRange cfg (execCall cfg c st)"
    using Cons.prems by (cases c) (simp_all add: recordsInRange_check recordsInRange_cleanup)
  then show ?case using Cons by simp
qed

lemma check_result_range:
  assumes "1 \<le> MAX_REQUESTS cfg" and "recordsInRange cfg st"
  shows "0 \<le> remaining (fst (checkRateLimit cfg now ip st))
       \<and> remaining (fst (checkRateLimit cfg now ip st)) \<le> MAX_REQUESTS cfg - 1
       \<and> (allowed (fst (checkRateLimit cfg now ip st)) \<longrightarrow>
            (\<exists>r. rateLimitMap (snd (checkRateLimit cfg now ip st)) ip = Some r
               \<and> remaining (fst (checkRateLimit cfg now ip st)) = MAX_REQUESTS cfg - count r))"
proof (cases "rateLimitMap st ip")
  case None
  then show ?thesis using assms(1) by (simp add: checkRateLimit_def Let_def)
next
  case (Some r0)
  then have "1 \<le> count r0 \<and> count r0 \<le> MAX_REQUESTS cfg"
    using assms(2) recordsInRangeD by blast
  then show ?thesis using Some assms(1) by (simp add: checkRateLimit_def Let_def)
qed

text \<open>
  Claim C10. With \<open>MAX_REQUESTS\<close> at least 1, after any finite sequence of \<open>checkRateLimit\<close>
  and \<open>cleanupExpiredRecords\<close> calls from the empty map, every stored record has
  \<open>1 \<le> count \<le> MAX_REQUESTS\<close>, and the result of any further \<open>checkRateLimit\<close> call has
  \<open>0 \<le> remaining \<le> MAX_REQUESTS - 1\<close>, with \<open>remaining = MAX_REQUESTS - count\<close> of the
  record stored for the caller whenever the call is allowed.
\<close>

theorem limiter_invariant:
  assumes "1 \<le> MAX_REQUESTS cfg"
  shows "(\<forall>ip r. rateLimitMap (execCalls cfg cs initialLimiter) ip = Some r \<longrightarrow>
            1 \<le> count r \<and> count r \<le> MAX_REQUESTS cfg)
       \<and> (\<forall>now ip. 
            0 \<le> remaining (fst (checkRateLimit cfg now ip (execCalls cfg cs initialLimiter)))
          \<and> remaining (fst (checkRateLimit cfg now ip (execCalls cfg cs initialLimiter)))
              \<le> MAX_REQUESTS cfg - 1
          \<and> (allowed (fst (checkRateLimit cfg now ip (execCalls cfg cs initialLimiter))) \<longrightarrow>
               (\<exists>r. rateLimitMap (snd (checkRateLimit cfg now ip (execCalls cfg cs initialLimiter))) ip
                      = Some r
                  \<and> remaining (fst (checkRateLimit cfg now ip (execCalls cfg cs initialLimiter)))
                      = MAX_REQUESTS cfg - count r)))"
proof -
  have "recordsInRange cfg initialLimiter"
    by (simp add: recordsInRange_def initialLimiter_def)
  then have r: "recordsInRange cfg (execCalls cfg cs initialLimiter)"
    using assms by (rule recordsInRange_execCalls[rotated])
  show ?thesis
    using r check_result_range[OF assms r] unfolding recordsInRange_def by blast
qed

theorem limiter_invariant_witness:
  "1 \<le> MAX_REQUESTS \<lparr>WINDOW_MS = 60000, MAX_REQUESTS = 2\<rparr>
   \<and> rateLimitMap (execCalls \<lparr>WINDOW_MS = 60000, MAX_REQUESTS = 2\<rparr>
        [Check (js ''a'') 0, Check (js ''a'') 10, Check (js ''a'') 20, Check (js ''b'') 30,
         Cleanup 60015, Check (js ''b'') 60040] initialLimiter) (js ''b'')
       = Some \<lparr>count = 1, resetTime = 120040\<rparr>
   \<and> 0 \<le> remaining (fst (checkRateLimit \<lparr>WINDOW_MS = 60000, MAX_REQUESTS = 2\<rparr> 60050 (js ''b'')
        (execCalls \<lparr>WINDOW_MS = 60000, MAX_REQUESTS = 2\<rparr>
        [Check (js ''a'') 0, Check (js ''a'') 10, Check (js ''a'') 20, Check (js ''b'') 30,
         Cleanup 60015, Check (js ''b'') 60040] initialLimiter)))"
proof -
  have h: "1 \<le> MAX_REQUESTS \<lparr>WINDOW_MS = 60000, MAX_REQUESTS = 2\<rparr>" by simp
  have m: "rateLimitMap (execCalls \<lparr>WINDOW_MS = 60000, MAX_REQUESTS = 2\<rparr>
        [Check (js ''a'') 0, Check (js ''a'') 10, Check (js ''a'') 20, Check (js ''b'') 30,
         Cleanup 60015, Check (js ''b'') 60040] initialLimiter) (js ''b'')
       = Some \<lparr>count = 1, resetTime = 120040\<rparr>"
    by (simp add: checkRateLimit_def ensureCleanupRunning_def cleanupExpiredRecords_def
        initialLimiter_def js_def)
  show ?thesis
    using h m limiter_invariant [OF h, of "[Check (js ''a'') 0, Check (js ''a'') 10, Check (js ''a'') 20, Check (js ''b'') 30,
         Cleanup 60015, Check (js ''b'') 60040]"] by blast
qed

section \<open>Scoring engine: properties\<close>

lemma codeQuality_range: "50 \<le> score (codeQualityEntry m) \<and> score (codeQualityEntry m) \<le> 100"
  by (simp add: codeQualityEntry_def adjust_def Let_def)

lemma documentation_range: "15 \<le> score (documentationEntry m) \<and> score (documentationEntry m) \<le> 90"
  by (cases "readmeQuality m") (simp_all add: documentationEntry_def adjust_def Let_def)

lemma security_range: "25 \<le> score (securityEntry m) \<and> score (securityEntry m) \<le> 85"
  by (simp add: securityEntry_def adjust_def Let_def)

lemma maintainability_range: "50 \<le> score (maintainabilityEntry m) \<and> score (maintainabilityEntry m) \<le> 100"
  by (simp add: maintainabilityEntry_def adjust_def Let_def)

lemma testCoverage_range: "20 \<le> score (testCoverageEntry m) \<and> score (testCoverageEntry m) \<le> 80"
  by (simp add: testCoverageEntry_def adjust_def Let_def)

lemma dependencies_range: "50 \<le> score (dependenciesEntry m) \<and> score (dependenciesEntry m) \<le> 80"
  by (simp add: dependenciesEntry_def adjust_def Let_def)

lemma Math_round_weightedSum:
  "Math_round (weightedSum cq doc sec maint test dep)
     = (20 * cq + 15 * doc + 20 * sec + 20 * maint + 15 * test + 10 * dep + 50) div 100"
proof -
  have "weightedSum cq doc sec maint test dep + 1 / 2
      = of_int (20 * cq + 15 * doc + 20 * sec + 20 * maint + 15 * test + 10 * dep + 50) / of_int 100"
    by (simp add: weightedSum_def field_simps)
  then show ?thesis
    unfolding Math_round_def by (simp only: floor_divide_of_int_eq)
qed

lemma overall_range:
  assumes "0 \<le> cq" "cq \<le> 100" "0 \<le> doc" "doc \<le> 100" "0 \<le> sec" "sec \<le> 100"
    "0 \<le> maint" "maint \<le> 100" "0 \<le> test" "test \<le> 100" "0 \<le> dep" "dep \<le> (100::int)"
  shows "0 \<le> (20 * cq + 15 * doc + 20 * sec + 20 * maint + 15 * test + 10 * dep + 50) div 100
       \<and> (20 * cq + 15 * doc + 20 * sec + 20 * maint + 15 * test + 10 * dep + 50) div 100 \<le> 100"
  using assms by linarith

subsection \<open>The weighted sum in doubles\<close>

lemma products_fifth:
  "list_all (\<lambda>n. dmul (of_int n) (decimalLiteral (2 / 10)) = of_int n / 5) fives"
  unfolding fives_def by code_simp

lemma products_three_twentieths:
  "list_all (\<lambda>n. dmul (of_int n) (decimalLiteral (15 / 100)) = of_int n * 3 / 20) fives"
  unfolding fives_def by code_simp

lemma products_tenth:
  "list_all (\<lambda>n. dmul (of_int n) (decimalLiteral (1 / 10)) = of_int n / 10) tens"
  unfolding tens_def by code_simp

text \<open>The rounding is not vacuous: in doubles, 0.1 + 0.2 is not 0.3.\<close>

lemma double_sum_inexact:
  "dadd (decimalLiteral (1 / 10)) (decimalLiteral (2 / 10)) = 1351079888211149 / 4503599627370496"
  "dadd (decimalLiteral (1 / 10)) (decimalLiteral (2 / 10)) \<noteq> 3 / 10"
  by code_simp+

lemma roundHalfEven_of_int: "roundHalfEven (of_int z) = z"
  by (simp add: roundHalfEven_def)

lemma binaryExponent_le:
  assumes "0 < x" and "x < 2 ^ 51"
  shows "binaryExponent x \<le> 50"
proof (cases "x \<ge> 1")
  case True
  have "\<lfloor>x\<rfloor> < 2 ^ 51" using assms(2) by (simp add: floor_less_iff)
  then have "nat \<lfloor>x\<rfloor> < 2 ^ 51" using True by (simp add: nat_less_iff)
  then have "floorlog 2 (nat \<lfloor>x\<rfloor>) \<le> 51" by (intro floorlog_leI) simp_all
  then show ?thesis using True by (simp add: binaryExponent_def)
next
  case False
  then show ?thesis by (simp add: binaryExponent_def)
qed

lemma toDouble_quarters:
  assumes "0 \<le> m" and "m \<le> 2000"
  shows "toDouble (of_int m / 4) = of_int m / 4"
proof (cases "m = 0")
  case True
  then show ?thesis by (simp add: toDouble_def)
next
  case False
  define x :: rat where "x = of_int m / 4"
  have pos: "0 < x" using assms(1) False by (simp add: x_def)
  have "(of_int m :: rat) \<le> 2000" using assms(2) by simp
  then have small: "x < 2 ^ 51" by (simp add: x_def)
  define k where "k = binaryExponent x - 52"
  have k: "k \<le> - 2" using binaryExponent_le[OF pos small] by (simp add: k_def)
  define j where "j = nat (- k) - 2"
  have nk: "nat (- k) = j + 2" using k by (simp add: j_def)
  have ulp: "pow2 k = 1 / 2 ^ (j + 2)" using k nk by (simp add: pow2_def)
  have "x / pow2 k = of_int m / 4 * 2 ^ (j + 2)" by (simp add: ulp x_def)
  also have "\<dots> = of_int (m * 2 ^ j)" by simp
  finally have q: "x / pow2 k = of_int (m * 2 ^ j)" .
  have "roundPositive x = of_int (m * 2 ^ j) * pow2 k"
    unfolding roundPositive_def Let_def k_def[symmetric] q roundHalfEven_of_int ..
  also have "\<dots> = x" by (simp add: ulp x_def)
  finally show ?thesis using pos by (simp add: toDouble_def x_def)
qed

lemma dadd_quarters:
  assumes "quarters p x" and "quarters q y" and "p + q \<le> 2000"
  shows "dadd x y = x + y \<and> quarters (p + q) (x + y)"
proof -
  obtain a where a: "0 \<le> a" "a \<le> p" "x = of_int a / 4"
    using assms(1) unfolding quarters_def by blast
  obtain b where b: "0 \<le> b" "b \<le> q" "y = of_int b / 4"
    using assms(2) unfolding quarters_def by blast
  have s: "x + y = of_int (a + b) / 4" using a(3) b(3) by simp
  have "toDouble (of_int (a + b) / 4) = of_int (a + b) / 4"
    using a b assms(3) by (intro toDouble_quarters) simp_all
  then have "dadd x y = x + y" unfolding dadd_def s .
  moreover have "quarters (p + q) (x + y)"
    unfolding quarters_def using a b s by (intro exI[of _ "a + b"]) simp
  ultimately show ?thesis by simp
qed

lemma quarters_fifth: "n \<in> set fives \<Longrightarrow> quarters 80 (of_int n / 5)"
  unfolding quarters_def fives_def
  by (intro exI[of _ "4 * (n div 5)"]) auto

lemma quarters_three_twentieths: "n \<in> set fives \<Longrightarrow> quarters 60 (of_int n * 3 / 20)"
  unfolding quarters_def fives_def
  by (intro exI[of _ "3 * (n div 5)"]) auto

lemma quarters_tenth: "n \<in> set tens \<Longrightarrow> quarters 40 (of_int n / 10)"
  unfolding quarters_def tens_def
  by (intro exI[of _ "4 * (n div 10)"]) auto

lemma weightedSumDouble_exact:
  assumes "cq \<in> set fives" "doc \<in> set fives" "sec \<in> set fives" "maint \<in> set fives"
    "test \<in> set fives" "dep \<in> set tens"
  shows "weightedSumDouble cq doc sec maint test dep = weightedSum cq doc sec maint test dep"
proof -
  have p1: "dmul (of_int cq) (decimalLiteral (2 / 10)) = of_int cq / 5"
    using products_fifth assms(1) by (simp add: list_all_iff)
  have p2: "dmul (of_int doc) (decimalLiteral (15 / 100)) = of_int doc * 3 / 20"
    using products_three_twentieths assms(2) by (simp add: list_all_iff)
  have p3: "dmul (of_int sec) (decimalLiteral (2 / 10)) = of_int sec / 5"
    using products_fifth assms(3) by (simp add: list_all_iff)
  have p4: "dmul (of_int maint) (decimalLiteral (2 / 10)) = of_int maint / 5"
    using products_fifth assms(4) by (simp add: list_all_iff)
  have p5: "dmul (of_int test) (decimalLiteral (15 / 100)) = of_int test * 3 / 20"
    using products_three_twentieths assms(5) by (simp add: list_all_iff)
  have p6: "dmul (of_int dep) (decimalLiteral (1 / 10)) = of_int dep / 10"
    using products_tenth assms(6) by (simp add: list_all_iff)
  note q1 = quarters_fifth[OF assms(1)]
  note q2 = quarters_three_twentieths[OF assms(2)]
  note q3 = quarters_fifth[OF assms(3)]
  note q4 = quarters_fifth[OF assms(4)]
  note q5 = quarters_three_twentieths[OF assms(5)]
  note q6 = quarters_tenth[OF assms(6)]
  have s2: "dadd (of_int cq / 5) (of_int doc * 3 / 20) = of_int cq / 5 + of_int doc * 3 / 20"
    "quarters 140 (of_int cq / 5 + of_int doc * 3 / 20)"
    using dadd_quarters[OF q1 q2] by simp_all
  have s3: "dadd (of_int cq / 5 + of_int doc * 3 / 20) (of_int sec / 5)
              = of_int cq / 5 + of_int doc * 3 / 20 + of_int sec / 5"
    "quarters 220 (of_int cq / 5 + of_int doc * 3 / 20 + of_int sec / 5)"
    using dadd_quarters[OF s2(2) q3] by simp_all
  have s4: "dadd (of_int cq / 5 + of_int doc * 3 / 20 + of_int sec / 5) (of_int maint / 5)
              = of_int cq / 5 + of_int doc * 3 / 20 + of_int sec / 5 + of_int maint / 5"
    "quarters 300 (of_int cq / 5 + of_int doc * 3 / 20 + of_int sec / 5 + of_int maint / 5)"
    using dadd_quarters[OF s3(2) q4] by simp_all
  have s5: "dadd (of_int cq / 5 + of_int doc * 3 / 20 + of_int sec / 5 + of_int maint / 5)
                 (of_int test * 3 / 20)
              = of_int cq / 5 + of_int doc * 3 / 20 + of_int sec / 5 + of_int maint / 5
                + of_int test * 3 / 20"
    "quarters 360 (of_int cq / 5 + of_int doc * 3 / 20 + of_int sec / 5 + of_int maint / 5
                + of_int test * 3 / 20)"
    using dadd_quarters[OF s4(2) q5] by simp_all
  have s6: "dadd (of_int cq / 5 + of_int doc * 3 / 20 + of_int sec / 5 + of_int maint / 5
                + of_int test * 3 / 20) (of_int dep / 10)
              = of_int cq / 5 + of_int doc * 3 / 20 + of_int sec / 5 + of_int maint / 5
                + of_int test * 3 / 20 + of_int dep / 10"
    using dadd_quarters[OF s5(2) q6] by simp
  have "weightedSumDouble cq doc sec maint test dep
      = of_int cq / 5 + of_int doc * 3 / 20 + of_int sec / 5 + of_int maint / 5
                + of_int test * 3 / 20 + of_int dep / 10"
    unfolding weightedSumDouble_def p1 p2 p3 p4 p5 p6 s2(1) s3(1) s4(1) s5(1) s6 ..
  also have "\<dots> = weightedSum cq doc sec maint test dep"
    by (simp add: weightedSum_def)
  finally show ?thesis .
qed

lemma category_scores_reachable:
  "score (codeQualityEntry m) \<in> set fives"
  "score (documentationEntry m) \<in> set fives"
  "score (securityEntry m) \<in> set fives"
  "score (maintainabilityEntry m) \<in> set fives"
  "score (testCoverageEntry m) \<in> set fives"
  "score (dependenciesEntry m) \<in> set tens"
proof -
  show "score (codeQualityEntry m) \<in> set fives"
    by (simp add: codeQualityEntry_def adjust_def Let_def fives_def)
  show "score (documentationEntry m) \<in> set fives"
    by (cases "readmeQuality m") (simp_all add: documentationEntry_def adjust_def Let_def fives_def)
  show "score (securityEntry m) \<in> set fives"
    by (simp add: securityEntry_def adjust_def Let_def fives_def)
  show "score (maintainabilityEntry m) \<in> set fives"
    by (simp add: maintainabilityEntry_def adjust_def Let_def fives_def)
  show "score (testCoverageEntry m) \<in> set fives"
    by (simp add: testCoverageEntry_def adjust_def Let_def fives_def)
  show "score (dependenciesEntry m) \<in> set tens"
    by (simp add: dependenciesEntry_def adjust_def Let_def tens_def)
qed

lemma overall_exact:
  "overall (calculateScores m)
     = Math_round (weightedSum (score (codeQualityEntry m)) (score (documentationEntry m))
         (score (securityEntry m)) (score (maintainabilityEntry m))
         (score (testCoverageEntry m)) (score (dependenciesEntry m)))"
  by (simp add: calculateScores_def Let_def weightedSumDouble_exact[OF category_scores_reachable])

text \<open>
  Claim C1. For every CodeMetrics value, \<open>calculateScores\<close> returns seven integers, each
  between 0 and 100, and the overall score, which the code computes in doubles, equals
  \<open>Math.round\<close> of the exact weighted sum
  \<open>0.20 * codeQuality + 0.15 * documentation + 0.20 * security + 0.20 * maintainability
  + 0.15 * testCoverage + 0.10 * dependencies\<close> of the six category scores it returns; in
  integers, that is the weighted sum in hundredths plus 50, divided by 100.
\<close>

theorem scores_in_range_and_weighted:
  "(let s = calculateScores m in
      0 \<le> codeQuality s \<and> codeQuality s \<le> 100
    \<and> 0 \<le> documentation s \<and> documentation s \<le> 100
    \<and> 0 \<le> security s \<and> security s \<le> 100
    \<and> 0 \<le> maintainability s \<and> maintainability s \<le> 100
    \<and> 0 \<le> testCoverage s \<and> testCoverage s \<le> 100
    \<and> 0 \<le> dependencies s \<and> dependencies s \<le> 100
    \<and> 0 \<le> overall s \<and> overall s \<le> 100
    \<and> overall s = Math_round (weightedSum (codeQuality s) (documentation s) (security s)
                                 (maintainability s) (testCoverage s) (dependencies s))
    \<and> overall s = (20 * codeQuality s + 15 * documentation s + 20 * security s
                    + 20 * maintainability s + 15 * testCoverage s + 10 * dependencies s + 50) div 100)"
proof -
  note r = codeQuality_range[of m] documentation_range[of m] security_range[of m]
    maintainability_range[of m] testCoverage_range[of m] dependencies_range[of m]
  have o: "0 \<le> (20 * score (codeQualityEntry m) + 15 * score (documentationEntry m)
        + 20 * score (securityEntry m) + 20 * score (maintainabilityEntry m)
        + 15 * score (testCoverageEntry m) + 10 * score (dependenciesEntry m) + 50) div 100
     \<and> (20 * score (codeQualityEntry m) + 15 * score (documentationEntry m)
        + 20 * score (securityEntry m) + 20 * score (maintainabilityEntry m)
        + 15 * score (testCoverageEntry m) + 10 * score (dependenciesEntry m) + 50) div 100 \<le> 100"
    using r by (intro overall_range) linarith+
  have c: "codeQuality (calculateScores m) = score (codeQualityEntry m)"
    "documentation (calculateScores m) = score (documentationEntry m)"
    "security (calculateScores m) = score (securityEntry m)"
    "maintainability (calculateScores m) = score (maintainabilityEntry m)"
    "testCoverage (calculateScores m) = score (testCoverageEntry m)"
    "dependencies (calculateScores m) = score (dependenciesEntry m)"
    by (simp_all add: calculateScores_def Let_def)
  show ?thesis
    unfolding Let_def c overall_exact Math_round_weightedSum
    using r o by simp
qed

lemma codeQuality_score:
  "score (codeQualityEntry m) =
     50 + (if hasTypeScript m then 20 else 0) + (if strictMode m then 10 else 0)
        + (if hasLinting m then 10 else 0) + (if hasPrettier m then 5 else 0)
        + (if hasErrorHandling (codePatterns m) then 5 else 0)"
  by (simp add: codeQualityEntry_def adjust_def Let_def)

text \<open>
  Claim C9, as amended. For every CodeMetrics value with \<open>hasTypeScript = true\<close> and
  \<open>strictMode = false\<close> (whatever \<open>hasTests\<close> and \<open>hasCI\<close> are), the code-quality score is
  70 plus 10 for linting, 5 for Prettier and 5 for error handling; it is 50 + 20 = 70 exactly
  when \<open>hasLinting\<close>, \<open>hasPrettier\<close> and \<open>codePatterns.hasErrorHandling\<close> are all false.
\<close>

theorem codeQuality_typescript_no_strict:
  assumes "hasTypeScript m" and "\<not> strictMode m"
  shows "codeQuality (calculateScores m) =
           70 + (if hasLinting m then 10 else 0) + (if hasPrettier m then 5 else 0)
              + (if hasErrorHandling (codePatterns m) then 5 else 0)
       \<and> (codeQuality (calculateScores m) = 70 \<longleftrightarrow>
            \<not> hasLinting m \<and> \<not> hasPrettier m \<and> \<not> hasErrorHandling (codePatterns m))"
  using assms by (simp add: calculateScores_def Let_def codeQuality_score)

theorem codeQuality_typescript_no_strict_witness:
  "hasTypeScript (bareMetrics\<lparr>hasTypeScript := True\<rparr>)
   \<and> \<not> strictMode (bareMetrics\<lparr>hasTypeScript := True\<rparr>)
   \<and> codeQuality (calculateScores (bareMetrics\<lparr>hasTypeScript := True\<rparr>)) = 70"
proof -
  have h1: "hasTypeScript (bareMetrics\<lparr>hasTypeScript := True\<rparr>)" by simp
  have h2: "\<not> strictMode (bareMetrics\<lparr>hasTypeScript := True\<rparr>)" by (simp add: bareMetrics_def)
  show ?thesis
    using h1 h2 codeQuality_typescript_no_strict [OF h1 h2] by (simp add: bareMetrics_def)
qed

text \<open>
  The claim as stated fails: with linting configured, the four stated conditions hold and
  the code-quality score is 80.
\<close>

theorem codeQuality_70_counterexample:
  "hasTests (bareMetrics\<lparr>hasTypeScript := True, hasLinting := True\<rparr>) = False
   \<and> hasCI (bareMetrics\<lparr>hasTypeScript := True, hasLinting := True\<rparr>) = False
   \<and> hasTypeScript (bareMetrics\<lparr>hasTypeScript := True, hasLinting := True\<rparr>) = True
   \<and> strictMode (bareMetrics\<lparr>hasTypeScript := True, hasLinting := True\<rparr>) = False
   \<and> codeQuality (calculateScores (bareMetrics\<lparr>hasTypeScript := True, hasLinting := True\<rparr>)) = 80
   \<and> codeQuality (calculateScores (bareMetrics\<lparr>hasTypeScript := True, hasLinting := True\<rparr>)) \<noteq> 70"
  by (simp add: bareMetrics_def calculateScores_def Let_def codeQuality_score)

section \<open>Diagram codec: properties\<close>

subsection \<open>Validation\<close>

lemma trim_keyword:
  assumes "k \<noteq> []" and "\<not> isWhiteSpace (hd k)" and "\<not> isWhiteSpace (last k)"
  shows "\<exists>r. trim (k @ rest) = k @ r"
proof -
  have d: "dropWhile isWhiteSpace (k @ rest) = k @ rest"
    using assms(1,2) by (cases k) simp_all
  have l: "dropWhile isWhiteSpace (rev k) = rev k"
  proof (cases k rule: rev_cases)
    case Nil
    then show ?thesis by simp
  next
    case (snoc b c)
    then show ?thesis using assms(3) by simp
  qed
  show ?thesis
  proof (cases "\<forall>x \<in> set (rev rest). isWhiteSpace x")
    case True
    then have "dropWhile isWhiteSpace (rev rest @ rev k) = rev k"
      using l by (auto simp: dropWhile_append)
    then show ?thesis by (simp add: trim_def d)
  next
    case False
    then have "dropWhile isWhiteSpace (rev rest @ rev k) = dropWhile isWhiteSpace (rev rest) @ rev k"
      by (auto simp: dropWhile_append)
    then show ?thesis by (simp add: trim_def d)
  qed
qed

lemma toLowerCase_append: "toLowerCase (a @ b) = toLowerCase a @ toLowerCase b"
  by (simp add: toLowerCase_def)

lemma validate_camel:
  assumes k: "k \<noteq> []" "\<not> isWhiteSpace (hd k)" "\<not> isWhiteSpace (last k)"
    and low: "\<And>r. \<not> list_ex (\<lambda>start. startsWith (toLowerCase k @ r) start) validStarts"
  shows "validateMermaidSyntax (Some (k @ rest)) = False"
proof -
  obtain r where "trim (k @ rest) = k @ r"
    using trim_keyword[OF k] by blast
  then have "toLowerCase (trim (k @ rest)) = toLowerCase k @ toLowerCase r"
    by (simp add: toLowerCase_append)
  then show ?thesis
    using k(1) low[of "toLowerCase r"] by (simp add: validateMermaidSyntax_def)
qed

lemma sequenceDiagram_rejected:
  "validateMermaidSyntax (Some (js ''sequenceDiagram'' @ rest)) = False"
  by (rule validate_camel)
     (simp_all add: js_def isWhiteSpace_def toLowerCase_def toLowerCaseUnit_def
        validStarts_def startsWith_def)

lemma classDiagram_rejected:
  "validateMermaidSyntax (Some (js ''classDiagram'' @ rest)) = False"
  by (rule validate_camel)
     (simp_all add: js_def isWhiteSpace_def toLowerCase_def toLowerCaseUnit_def
        validStarts_def startsWith_def)

lemma stateDiagram_rejected:
  "validateMermaidSyntax (Some (js ''stateDiagram'' @ rest)) = False"
  by (rule validate_camel)
     (simp_all add: js_def isWhiteSpace_def toLowerCase_def toLowerCaseUnit_def
        validStarts_def startsWith_def)

lemma erDiagram_rejected:
  "validateMermaidSyntax (Some (js ''erDiagram'' @ rest)) = False"
  by (rule validate_camel)
     (simp_all add: js_def isWhiteSpace_def toLowerCase_def toLowerCaseUnit_def
        validStarts_def startsWith_def)

text \<open>
  Claim C4 says that \<open>validateMermaidSyntax\<close> returns true for every text that begins, after
  trimming and without regard to case, with a recognized keyword. The code lower-cases the
  text but compares it with the keywords as they are written, capital D included, so a text
  that begins with \<open>sequenceDiagram\<close>, \<open>classDiagram\<close>, \<open>stateDiagram\<close> or \<open>erDiagram\<close> is
  rejected, whatever follows the keyword.
\<close>

theorem validate_rejects_diagram_keywords:
  "validateMermaidSyntax (Some (js ''sequenceDiagram'' @ rest)) = False
   \<and> validateMermaidSyntax (Some (js ''classDiagram'' @ rest)) = False
   \<and> validateMermaidSyntax (Some (js ''stateDiagram'' @ rest)) = False
   \<and> validateMermaidSyntax (Some (js ''erDiagram'' @ rest)) = False"
  by (simp only: sequenceDiagram_rejected classDiagram_rejected stateDiagram_rejected
      erDiagram_rejected simp_thms)

lemma toLowerCase_no_capital: "c \<in> set (toLowerCase s) \<Longrightarrow> \<not> (0x41 \<le> c \<and> c \<le> 0x5A)"
  by (auto simp: toLowerCase_def toLowerCaseUnit_def split: if_splits)

lemma startsWith_capital:
  assumes "0x44 \<in> set p"
  shows "\<not> startsWith (toLowerCase s) p"
proof
  assume "startsWith (toLowerCase s) p"
  then have "set p \<subseteq> set (toLowerCase s)"
    unfolding startsWith_def by (metis set_take_subset)
  then have "0x44 \<in> set (toLowerCase s)" using assms by blast
  then show False using toLowerCase_no_capital by fastforce
qed

lemma validate_accepts:
  "validateMermaidSyntax (Some c) \<longleftrightarrow>
     c \<noteq> [] \<and> (let t = toLowerCase (trim c) in
        startsWith t (js ''flowchart'') \<or> startsWith t (js ''graph'') \<or> startsWith t (js ''gantt'')
        \<or> startsWith t (js ''pie'') \<or> startsWith t (js ''mindmap''))"
proof -
  have "\<not> startsWith (toLowerCase (trim c)) (js ''sequenceDiagram'')"
       "\<not> startsWith (toLowerCase (trim c)) (js ''classDiagram'')"
       "\<not> startsWith (toLowerCase (trim c)) (js ''stateDiagram'')"
       "\<not> startsWith (toLowerCase (trim c)) (js ''erDiagram'')"
    by (rule startsWith_capital, simp add: js_def)+
  then show ?thesis
    by (auto simp: validateMermaidSyntax_def validStarts_def Let_def)
qed

lemma validate_examples:
  "validateMermaidSyntax (Some (js ''  FlowChart TD'')) = True"
  "validateMermaidSyntax (Some (js ''graph LR'')) = True"
  "validateMermaidSyntax (Some (js ''pie title Pets'')) = True"
  "validateMermaidSyntax (Some []) = False"
  "validateMermaidSyntax None = False"
  by (simp_all add: validateMermaidSyntax_def validStarts_def startsWith_def toLowerCase_def
      toLowerCaseUnit_def trim_def isWhiteSpace_def js_def)

subsection \<open>Identifier sanitization\<close>

lemma isLetter_isIdChar: "isLetter c \<Longrightarrow> isIdChar c"
  by (auto simp: isLetter_def isIdChar_def)

lemma forceLetterStart_props:
  assumes "s \<noteq> []" and "\<forall>c \<in> set s. isIdChar c"
  shows "forceLetterStart s \<noteq> []" and "isLetter (hd (forceLetterStart s))"
    and "\<forall>c \<in> set (forceLetterStart s). isIdChar c"
    and "length (forceLetterStart s) = length s"
  using assms by (cases s; auto simp: isLetter_def isIdChar_def)+

lemma forceLetterStart_id: "s \<noteq> [] \<Longrightarrow> isLetter (hd s) \<Longrightarrow> forceLetterStart s = s"
  by (cases s) simp_all

lemma map_clean_id: "\<forall>c \<in> set s. isIdChar c \<Longrightarrow> map (\<lambda>c. if isIdChar c then c else 0x5F) s = s"
  by (induction s) simp_all

lemma sanitizeId_clean:
  assumes "s \<noteq> []" and "isLetter (hd s)" and "\<forall>c \<in> set s. isIdChar c" and "length s \<le> 30"
  shows "sanitizeId e s = s"
  using assms by (simp add: sanitizeId_def map_clean_id forceLetterStart_id slice_def)

text \<open>
  Claim C5, as amended. For every non-empty input string \<open>x\<close>, the result of \<open>sanitizeId\<close>
  depends on \<open>x\<close> only (not on the clock or the random source), sanitizing it again gives
  the same result, and the result is not empty, starts with a letter, holds only letters,
  digits, underscore and hyphen, and has at most 30 code units. For the empty string the
  result is the text \<open>node_\<close>, the clock value, an underscore and up to four characters of the
  random source.
\<close>

theorem sanitizeId_nonempty:
  assumes "x \<noteq> []"
  shows "sanitizeId e x = sanitizeId e' x
       \<and> sanitizeId e' (sanitizeId e x) = sanitizeId e x
       \<and> sanitizeId e x \<noteq> []
       \<and> isLetter (hd (sanitizeId e x))
       \<and> (\<forall>c \<in> set (sanitizeId e x). isIdChar c)
       \<and> length (sanitizeId e x) \<le> 30
       \<and> sanitizeId e [] = js ''node_'' @ decimal (fst e) @ js ''_'' @ slice 2 6 (snd e)"
proof -
  let ?m = "map (\<lambda>c. if isIdChar c then c else 0x5F) x"
  let ?f = "forceLetterStart ?m"
  have m: "?m \<noteq> []" "\<forall>c \<in> set ?m. isIdChar c"
    using assms by (auto simp: isIdChar_def)
  note f = forceLetterStart_props[OF m]
  have s: "sanitizeId e x = take 30 ?f" for e
    using assms by (simp add: sanitizeId_def slice_def)
  have ne: "take 30 ?f \<noteq> []" using f(1) by simp
  have hd: "isLetter (hd (take 30 ?f))" using f(1,2) by (cases ?f) simp_all
  have all: "\<forall>c \<in> set (take 30 ?f). isIdChar c" using f(3) by (meson in_set_takeD)
  have len: "length (take 30 ?f) \<le> 30" by simp
  have idem: "sanitizeId e' (take 30 ?f) = take 30 ?f"
    by (rule sanitizeId_clean[OF ne hd all len])
  have gen: "sanitizeId e [] = js ''node_'' @ decimal (fst e) @ js ''_'' @ slice 2 6 (snd e)"
    by (simp add: sanitizeId_def)
  have "sanitizeId e x = sanitizeId e' x
       \<and> sanitizeId e' (sanitizeId e x) = sanitizeId e x
       \<and> sanitizeId e x \<noteq> []
       \<and> isLetter (hd (sanitizeId e x))
       \<and> (\<forall>c \<in> set (sanitizeId e x). isIdChar c)
       \<and> length (sanitizeId e x) \<le> 30"
    using s ne hd all len idem by metis
  then show ?thesis using gen by blast
qed

theorem sanitizeId_nonempty_witness:
  "js ''9 lives/api'' \<noteq> []
   \<and> sanitizeId (1700000000000, js ''0.4fzyo82mvyr'') (js ''9 lives/api'') = js ''n_lives_api''
   \<and> sanitizeId (1700000000555, js ''0.zzz'') (js ''n_lives_api'') = js ''n_lives_api''
   \<and> isLetter (hd (sanitizeId (1700000000000, js ''0.4fzyo82mvyr'') (js ''9 lives/api'')))"
proof -
  have h: "js ''9 lives/api'' \<noteq> []" by (simp add: js_def)
  have v: "sanitizeId (1700000000000, js ''0.4fzyo82mvyr'') (js ''9 lives/api'') = js ''n_lives_api''"
    by (simp add: sanitizeId_def js_def slice_def isIdChar_def isLetter_def)
  from sanitizeId_nonempty [OF h, of "(1700000000000, js ''0.4fzyo82mvyr'')" "(1700000000555, js ''0.zzz'')"]
  show ?thesis using h v by metis
qed

text \<open>
  The claim as stated fails at the empty string: there \<open>sanitizeId\<close> builds an identifier
  from the clock and the random source, so two calls on the same input give two results.
\<close>

theorem sanitizeId_empty_counterexample:
  "sanitizeId (1700000000000, js ''0.4fzyo82mvyr'') [] = js ''node_1700000000000_4fzy''
   \<and> sanitizeId (1700000000001, js ''0.k2x9c01'') [] = js ''node_1700000000001_k2x9''
   \<and> sanitizeId (1700000000000, js ''0.4fzyo82mvyr'') []
       \<noteq> sanitizeId (1700000000001, js ''0.k2x9c01'') []"
  by (simp add: sanitizeId_def decimal.simps js_def slice_def)

subsection \<open>Generated diagrams and the choice of the source\<close>

lemma fold_appends:
  assumes "\<And>x st. \<exists>y. proj (f x st) = proj st @ y"
  shows "\<exists>ys. proj (fold f xs st) = proj st @ ys"
proof (induction xs arbitrary: st)
  case Nil
  then show ?case by simp
next
  case (Cons x xs)
  obtain y where y: "proj (f x st) = proj st @ y" using assms by blast
  obtain ys where "proj (fold f xs (f x st)) = proj (f x st) @ ys" using Cons.IH by blast
  then show ?case using y by simp
qed

lemma archNode_appends: "\<exists>y. fst (archNode ent ic st) = fst st @ y"
  by (simp add: archNode_def Let_def)

lemma addConnection_appends: "\<exists>y. fst (addConnection a b st) = fst st @ y"
  by (simp add: addConnection_def Let_def)

lemma fold_archNode_appends: "\<exists>ys. fst (fold (archNode ent) xs st) = fst st @ ys"
  by (rule fold_appends[of fst "archNode ent"]) (rule archNode_appends)

lemma archConnections_appends: "\<exists>y. fst (archConnections idMap c st) = fst st @ y"
proof -
  have step: "\<exists>y. fst (connectTarget idMap a t st') = fst st' @ y"
    for t a and st' :: "jsstring list \<times> jsstring list"
    using addConnection_appends unfolding connectTarget_def by (cases "idMap t") auto
  have "\<exists>ys. fst (fold (connectTarget idMap a) xs st) = fst st @ ys" for a xs
    by (rule fold_appends[of fst "connectTarget idMap a"]) (rule step)
  then show ?thesis
    unfolding archConnections_def connectTarget_def
    by (cases "idMap (comp_id c)") auto
qed

lemma fold_archConnections_appends:
  "\<exists>ys. fst (fold (archConnections idMap) xs st) = fst st @ ys"
  by (rule fold_appends[of fst "archConnections idMap"]) (rule archConnections_appends)

lemma flowNode_appends: "\<exists>y. fst (flowNode ent ic st) = fst st @ y"
  by (simp add: flowNode_def Let_def split_def)

lemma fold_flowNode_appends: "\<exists>ys. fst (fold (flowNode ent) xs st) = fst st @ ys"
  by (rule fold_appends[of fst "flowNode ent"]) (rule flowNode_appends)

lemma flowEdge_appends: "\<exists>y. flowEdge idMap e ls = ls @ y"
  by (simp add: flowEdge_def Let_def split: option.splits)

lemma fold_flowEdge_appends: "\<exists>ys. fold (flowEdge idMap) xs ls = ls @ ys"
  using fold_appends[of "\<lambda>x. x" "flowEdge idMap" xs ls] flowEdge_appends by blast

lemma sequenceParticipant_appends: "\<exists>y. fst (sequenceParticipant ent ic st) = fst st @ y"
  by (simp add: sequenceParticipant_def Let_def)

lemma fold_sequenceParticipant_appends:
  "\<exists>ys. fst (fold (sequenceParticipant ent) xs st) = fst st @ ys"
  by (rule fold_appends[of fst "sequenceParticipant ent"]) (rule sequenceParticipant_appends)

lemma sequenceEdge_appends: "\<exists>y. sequenceEdge idMap e ls = ls @ y"
  by (simp add: sequenceEdge_def Let_def split: option.splits)

lemma fold_sequenceEdge_appends: "\<exists>ys. fold (sequenceEdge idMap) xs ls = ls @ ys"
  using fold_appends[of "\<lambda>x. x" "sequenceEdge idMap" xs ls] sequenceEdge_appends by blast

lemma join_head: "rest \<noteq> [] \<Longrightarrow> join sep (x # rest) = x @ sep @ join sep rest"
  by (cases rest) simp_all

lemma generateArchitectureDiagram_code:
  "\<exists>r. code (fst (generateArchitectureDiagram ent k cs)) = js ''flowchart TD'' @ [0x0A] @ r"
proof (cases "cs = []")
  case True
  then show ?thesis by (simp add: generateArchitectureDiagram_def)
next
  case False
  define st1 where "st1 = fold (archNode ent) (zip [k ..< k + length cs] cs) ([js ''flowchart TD''], [])"
  define idMap where "idMap = fold (\<lambda>ic m. m(comp_id (snd ic) \<mapsto> sanitizeId (ent (fst ic)) (comp_id (snd ic))))
                       (zip [k + length cs ..< k + 2 * length cs] cs) Map.empty"
  define st2 where "st2 = fold (archConnections idMap) cs (fst st1, [])"
  obtain a where a: "fst st1 = [js ''flowchart TD''] @ a"
    unfolding st1_def using fold_archNode_appends[of ent _ "([js ''flowchart TD''], [])"] by auto
  obtain b where b: "fst st2 = fst st1 @ b"
    unfolding st2_def using fold_archConnections_appends[of idMap cs "(fst st1, [])"] by auto
  define tail where "tail =
               [[],
                js ''    classDef frontend fill:#3b82f6,stroke:#1d4ed8,color:#fff'',
                js ''    classDef backend fill:#10b981,stroke:#059669,color:#fff'',
                js ''    classDef database fill:#8b5cf6,stroke:#6d28d9,color:#fff'',
                js ''    classDef service fill:#f59e0b,stroke:#d97706,color:#fff'',
                js ''    classDef external fill:#6b7280,stroke:#4b5563,color:#fff'',
                js ''    classDef middleware fill:#ec4899,stroke:#db2777,color:#fff''] @
               map (\<lambda>g. classLine (snd g) (componentTypeName (fst g)))
                 (filter (\<lambda>g. length (snd g) > 0) (snd st1))"
  have c: "code (fst (generateArchitectureDiagram ent k cs)) = join [0x0A] (fst st2 @ tail)"
    using False
    by (simp add: generateArchitectureDiagram_def Let_def split_def tail_def st2_def idMap_def st1_def)
  have t: "a @ b @ tail \<noteq> []" by (simp add: tail_def)
  have "fst st2 @ tail = js ''flowchart TD'' # (a @ b @ tail)"
    using a b by simp
  then have "join [0x0A] (fst st2 @ tail) = js ''flowchart TD'' @ [0x0A] @ join [0x0A] (a @ b @ tail)"
    using join_head[OF t] by simp
  then have "code (fst (generateArchitectureDiagram ent k cs))
      = js ''flowchart TD'' @ [0x0A] @ join [0x0A] (a @ b @ tail)"
    using c by (simp only:)
  then show ?thesis by (rule exI)
qed

lemma generateDataFlowDiagram_code:
  "\<exists>r. code (fst (generateDataFlowDiagram ent k ns es)) = js ''flowchart LR'' @ [0x0A] @ r"
proof (cases "ns = []")
  case True
  then show ?thesis by (simp add: generateDataFlowDiagram_def)
next
  case False
  define st1 where "st1 = fold (flowNode ent) (zip [k ..< k + length ns] ns)
                            ([js ''flowchart LR''], [], Map.empty)"
  define l2 where "l2 = fold (flowEdge (snd (snd st1))) es (fst st1)"
  define tail where "tail =
               [[],
                js ''    classDef source fill:#22c55e,stroke:#16a34a,color:#fff'',
                js ''    classDef process fill:#3b82f6,stroke:#2563eb,color:#fff'',
                js ''    classDef store fill:#8b5cf6,stroke:#7c3aed,color:#fff'',
                js ''    classDef output fill:#f97316,stroke:#ea580c,color:#fff''] @
               map (\<lambda>g. classLine (snd g) (flowNodeTypeName (fst g)))
                 (filter (\<lambda>g. length (snd g) > 0) (fst (snd st1)))"
  obtain a where a: "fst st1 = [js ''flowchart LR''] @ a"
    unfolding st1_def
    using fold_flowNode_appends[of ent _ "([js ''flowchart LR''], [], Map.empty)"] by auto
  obtain b where b: "l2 = fst st1 @ b"
    unfolding l2_def using fold_flowEdge_appends by blast
  have c: "code (fst (generateDataFlowDiagram ent k ns es)) = join [0x0A] (l2 @ tail)"
    using False
    by (simp add: generateDataFlowDiagram_def Let_def split_def tail_def l2_def st1_def)
  have t: "a @ b @ tail \<noteq> []" by (simp add: tail_def)
  have "l2 @ tail = js ''flowchart LR'' # (a @ b @ tail)"
    using a b by simp
  then have "join [0x0A] (l2 @ tail) = js ''flowchart LR'' @ [0x0A] @ join [0x0A] (a @ b @ tail)"
    using join_head[OF t] by simp
  then have "code (fst (generateDataFlowDiagram ent k ns es))
      = js ''flowchart LR'' @ [0x0A] @ join [0x0A] (a @ b @ tail)"
    using c by (simp only:)
  then show ?thesis by (rule exI)
qed

lemma generateSequenceDiagram_code:
  "\<exists>r. code (fst (generateSequenceDiagram ent k ns es)) = js ''sequenceDiagram'' @ [0x0A] @ r"
proof (cases "ns = [] \<or> es = []")
  case True
  then show ?thesis by (auto simp add: generateSequenceDiagram_def)
next
  case False
  define st1 where "st1 = fold (sequenceParticipant ent) (zip [k ..< k + length ns] ns)
                            ([js ''sequenceDiagram''], Map.empty)"
  define l2 where "l2 = fold (sequenceEdge (snd st1)) es (fst st1 @ [[]])"
  obtain a where a: "fst st1 = [js ''sequenceDiagram''] @ a"
    unfolding st1_def
    using fold_sequenceParticipant_appends[of ent _ "([js ''sequenceDiagram''], Map.empty)"] by auto
  obtain b where b: "l2 = (fst st1 @ [[]]) @ b"
    unfolding l2_def using fold_sequenceEdge_appends by blast
  have c: "code (fst (generateSequenceDiagram ent k ns es)) = join [0x0A] l2"
    using False
    by (simp add: generateSequenceDiagram_def Let_def split_def l2_def st1_def)
  have t: "a @ [[]] @ b \<noteq> []" by simp
  have "l2 = js ''sequenceDiagram'' # (a @ [[]] @ b)"
    using a b by simp
  then have "join [0x0A] l2 = js ''sequenceDiagram'' @ [0x0A] @ join [0x0A] (a @ [[]] @ b)"
    using join_head[OF t] by simp
  then have "code (fst (generateSequenceDiagram ent k ns es))
      = js ''sequenceDiagram'' @ [0x0A] @ join [0x0A] (a @ [[]] @ b)"
    using c by (simp only:)
  then show ?thesis by (rule exI)
qed

lemma validate_flowchart: "validateMermaidSyntax (Some (js ''flowchart'' @ rest)) = True"
proof -
  obtain r where "trim (js ''flowchart'' @ rest) = js ''flowchart'' @ r"
    using trim_keyword[of "js ''flowchart''" rest]
    by (auto simp: js_def isWhiteSpace_def)
  then have "toLowerCase (trim (js ''flowchart'' @ rest)) = js ''flowchart'' @ toLowerCase r"
    by (simp add: toLowerCase_append) (simp add: toLowerCase_def toLowerCaseUnit_def js_def)
  then show ?thesis
    by (simp add: validateMermaidSyntax_def validStarts_def startsWith_def js_def)
qed

lemma generated_flowcharts_valid:
  "validateMermaidSyntax (Some (code (fst (generateArchitectureDiagram ent k cs))))"
  "validateMermaidSyntax (Some (code (fst (generateDataFlowDiagram ent k ns es))))"
proof -
  have td: "js ''flowchart TD'' @ x = js ''flowchart'' @ (js '' TD'' @ x)" for x
    by (simp add: js_def)
  have lr: "js ''flowchart LR'' @ x = js ''flowchart'' @ (js '' LR'' @ x)" for x
    by (simp add: js_def)
  show "validateMermaidSyntax (Some (code (fst (generateArchitectureDiagram ent k cs))))"
    using generateArchitectureDiagram_code[of ent k cs] validate_flowchart td by metis
  show "validateMermaidSyntax (Some (code (fst (generateDataFlowDiagram ent k ns es))))"
    using generateDataFlowDiagram_code[of ent k ns es] validate_flowchart lr by metis
qed

lemma generated_sequence_rejected:
  "\<not> validateMermaidSyntax (Some (code (fst (generateSequenceDiagram ent k ns es))))"
  using generateSequenceDiagram_code[of ent k ns es] sequenceDiagram_rejected by metis

lemma generated_code_nonempty:
  "code (fst (generateArchitectureDiagram ent k cs)) \<noteq> []"
  "code (fst (generateDataFlowDiagram ent k ns es)) \<noteq> []"
  "code (fst (generateSequenceDiagram ent k ns es)) \<noteq> []"
  using generateArchitectureDiagram_code[of ent k cs] generateDataFlowDiagram_code[of ent k ns es]
    generateSequenceDiagram_code[of ent k ns es]
  by (auto simp: js_def)

lemma generator_counts:
  "snd (generateArchitectureDiagram ent k cs) = (if cs = [] then k else k + 2 * length cs)"
  "snd (generateDataFlowDiagram ent k ns es) = (if ns = [] then k else k + length ns)"
  by (simp_all add: generateArchitectureDiagram_def generateDataFlowDiagram_def Let_def split_def)

lemma aiDiagramOk_Some: "aiDiagramOk d \<Longrightarrow> \<exists>x. d = Some x \<and> code x \<noteq> []"
  by (cases d) (auto simp: aiDiagramOk_def validateMermaidSyntax_def)

lemma generateArchitectureDiagram_example:
  "code (fst (generateArchitectureDiagram fixedEntropy 0 [webComponent, apiComponent])) =
     join [0x0A]
       [js ''flowchart TD'',
        js ''    web_app['' @ [0x22] @ js ''Web [UI]<br/><small>React, Next.js</small>'' @ [0x22] @ js '']'',
        js ''    api[['' @ [0x22] @ js ''API'' @ [0x22] @ js '']]'',
        js ''    web_app --> api'',
        [],
        js ''    classDef frontend fill:#3b82f6,stroke:#1d4ed8,color:#fff'',
        js ''    classDef backend fill:#10b981,stroke:#059669,color:#fff'',
        js ''    classDef database fill:#8b5cf6,stroke:#6d28d9,color:#fff'',
        js ''    classDef service fill:#f59e0b,stroke:#d97706,color:#fff'',
        js ''    classDef external fill:#6b7280,stroke:#4b5563,color:#fff'',
        js ''    classDef middleware fill:#ec4899,stroke:#db2777,color:#fff'',
        js ''    class web_app frontend'',
        js ''    class api backend'']"
  by (simp add: generateArchitectureDiagram_def webComponent_def apiComponent_def fixedEntropy_def
      archNode_def archConnections_def addConnection_def sanitizeId_def sanitizeLabel_def
      classLine_def replaceAll_def collapseWhiteSpace_def trim_def slice_def isWhiteSpace_def
      isIdChar_def isLetter_def js_def Let_def upt_rec)

text \<open>
  The generated diagrams depend on the clock and the random source only through an empty
  identifier: when every component and node has a non-empty id, the result of
  \<open>processDiagrams\<close> is a function of its three arguments.
\<close>

lemma sanitizeId_indep: "x \<noteq> [] \<Longrightarrow> sanitizeId e x = sanitizeId e' x"
  by (simp add: sanitizeId_def)

lemma fold_zip_cong:
  assumes "length ixs = length xs" and "length jxs = length xs"
    and "\<And>i j x st. x \<in> set xs \<Longrightarrow> f (i, x) st = g (j, x) st"
  shows "fold f (zip ixs xs) st = fold g (zip jxs xs) st"
  using assms
proof (induction xs arbitrary: ixs jxs st)
  case Nil
  then show ?case by simp
next
  case (Cons x xs)
  obtain i ixs' where i: "ixs = i # ixs'" using Cons.prems(1) by (cases ixs) auto
  obtain j jxs' where j: "jxs = j # jxs'" using Cons.prems(2) by (cases jxs) auto
  have h: "f (i, x) st = g (j, x) st" using Cons.prems(3) by simp
  have "fold f (zip ixs' xs) (g (j, x) st) = fold g (zip jxs' xs) (g (j, x) st)"
    using Cons.prems i j by (intro Cons.IH) auto
  then show ?case using i j h by simp
qed

lemma archNode_indep:
  assumes "comp_id c \<noteq> []"
  shows "archNode ent (i, c) st = archNode ent' (j, c) st"
proof -
  have "sanitizeId (ent i) (comp_id c) = sanitizeId (ent' j) (comp_id c)"
    using assms by (rule sanitizeId_indep)
  then show ?thesis by (simp add: archNode_def Let_def)
qed

lemma flowNode_indep:
  assumes "node_id n \<noteq> []"
  shows "flowNode ent (i, n) st = flowNode ent' (j, n) st"
proof -
  have "sanitizeId (ent i) (node_id n) = sanitizeId (ent' j) (node_id n)"
    using assms by (rule sanitizeId_indep)
  then show ?thesis by (simp add: flowNode_def Let_def split_def)
qed

lemma sequenceParticipant_indep:
  assumes "node_id n \<noteq> []"
  shows "sequenceParticipant ent (i, n) st = sequenceParticipant ent' (j, n) st"
proof -
  have "sanitizeId (ent i) (node_id n) = sanitizeId (ent' j) (node_id n)"
    using assms by (rule sanitizeId_indep)
  then show ?thesis by (simp add: sequenceParticipant_def Let_def)
qed

lemma generateArchitectureDiagram_indep:
  assumes "\<forall>c \<in> set cs. comp_id c \<noteq> []"
  shows "fst (generateArchitectureDiagram ent k cs) = fst (generateArchitectureDiagram ent' k' cs)"
proof -
  have n: "fold (archNode ent) (zip [k ..< k + length cs] cs) st
         = fold (archNode ent') (zip [k' ..< k' + length cs] cs) st" for st
    using assms by (intro fold_zip_cong) (auto intro: archNode_indep)
  have "(\<lambda>m. m(comp_id c \<mapsto> sanitizeId (ent i) (comp_id c)))
      = (\<lambda>m. m(comp_id c \<mapsto> sanitizeId (ent' j) (comp_id c)))" if "c \<in> set cs" for c i j
    using assms that sanitizeId_indep[of "comp_id c" "ent i" "ent' j"] by simp
  then have m: "fold (\<lambda>ic m. m(comp_id (snd ic) \<mapsto> sanitizeId (ent (fst ic)) (comp_id (snd ic))))
             (zip [k + length cs ..< k + 2 * length cs] cs) st
         = fold (\<lambda>ic m. m(comp_id (snd ic) \<mapsto> sanitizeId (ent' (fst ic)) (comp_id (snd ic))))
             (zip [k' + length cs ..< k' + 2 * length cs] cs) st" for st
    by (intro fold_zip_cong) (auto dest: fun_cong)
  show ?thesis
    by (simp add: generateArchitectureDiagram_def Let_def split_def n m)
qed

lemma generateDataFlowDiagram_indep:
  assumes "\<forall>n \<in> set ns. node_id n \<noteq> []"
  shows "fst (generateDataFlowDiagram ent k ns es) = fst (generateDataFlowDiagram ent' k' ns es)"
proof -
  have n: "fold (flowNode ent) (zip [k ..< k + length ns] ns) st
         = fold (flowNode ent') (zip [k' ..< k' + length ns] ns) st" for st
    using assms by (intro fold_zip_cong) (auto intro: flowNode_indep)
  show ?thesis
    by (simp add: generateDataFlowDiagram_def Let_def split_def n)
qed

lemma generateSequenceDiagram_indep:
  assumes "\<forall>n \<in> set ns. node_id n \<noteq> []"
  shows "fst (generateSequenceDiagram ent k ns es) = fst (generateSequenceDiagram ent' k' ns es)"
proof -
  have n: "fold (sequenceParticipant ent) (zip [k ..< k + length ns] ns) st
         = fold (sequenceParticipant ent') (zip [k' ..< k' + length ns] ns) st" for st
    using assms by (intro fold_zip_cong) (auto intro: sequenceParticipant_indep)
  show ?thesis
    by (simp add: generateSequenceDiagram_def Let_def split_def n)
qed

lemma processDiagrams_deterministic:
  assumes "\<forall>c \<in> set (case arch of None \<Rightarrow> [] | Some cs \<Rightarrow> cs). comp_id c \<noteq> []"
    and "\<forall>n \<in> set (case flow of None \<Rightarrow> [] | Some f \<Rightarrow> (case nodes f of None \<Rightarrow> [] | Some ns \<Rightarrow> ns)).
           node_id n \<noteq> []"
  shows "processDiagrams ent ai arch flow = processDiagrams ent' ai arch flow"
proof -
  have a: "fst (generateArchitectureDiagram ent k cs) = fst (generateArchitectureDiagram ent' k' cs)"
    if "arch = Some cs" for cs k k'
    using assms(1) that by (intro generateArchitectureDiagram_indep) simp
  have f: "fst (generateDataFlowDiagram ent k ns es) = fst (generateDataFlowDiagram ent' k' ns es)"
    if "flow = Some fl" "nodes fl = Some ns" for fl ns es k k'
    using assms(2) that by (intro generateDataFlowDiagram_indep) simp
  have s: "fst (generateSequenceDiagram ent k ns es) = fst (generateSequenceDiagram ent' k' ns es)"
    if "flow = Some fl" "nodes fl = Some ns" for fl ns es k k'
    using assms(2) that by (intro generateSequenceDiagram_indep) simp
  show ?thesis
    unfolding processDiagrams_def Let_def split_def
    by (auto split: option.splits simp: generator_counts a f s
        intro: a f s)
qed

text \<open>
  Claim C6, as amended. For every input of \<open>processDiagrams\<close> and each of the three slots:
  if the generative backend supplied a diagram whose text passes \<open>validateMermaidSyntax\<close>,
  that diagram is used as it is; otherwise, if the structured data exists (components for
  the architecture, nodes for the data flow, nodes and edges for the components slot), the
  slot holds the diagram generated from it; and if no structured data exists either, the
  slot is left absent: \<open>processDiagrams\<close> emits no placeholder. Every slot that is filled
  holds a diagram with a non-empty text, and when every component and node has a non-empty
  id the result does not depend on the clock or the random source.
\<close>

theorem processDiagrams_policy:
  "(let r = processDiagrams ent ai arch flow;
        aiA = (case ai of None \<Rightarrow> None | Some a \<Rightarrow> architecture a);
        aiF = (case ai of None \<Rightarrow> None | Some a \<Rightarrow> dataFlow a);
        aiC = (case ai of None \<Rightarrow> None | Some a \<Rightarrow> components a);
        cs = (case arch of None \<Rightarrow> [] | Some cs \<Rightarrow> cs);
        ns = (case flow of None \<Rightarrow> [] | Some f \<Rightarrow> (case nodes f of None \<Rightarrow> [] | Some ns \<Rightarrow> ns));
        es = (case flow of None \<Rightarrow> [] | Some f \<Rightarrow> (case edges f of None \<Rightarrow> [] | Some es \<Rightarrow> es));
        k1 = (if aiDiagramOk aiA then 0 else 2 * length cs);
        k2 = (if aiDiagramOk aiF then k1 else k1 + length ns)
    in architecture r =
         (if aiDiagramOk aiA then aiA
          else if cs \<noteq> [] then Some (fst (generateArchitectureDiagram ent 0 cs)) else None)
     \<and> dataFlow r =
         (if aiDiagramOk aiF then aiF
          else if ns \<noteq> [] then Some (fst (generateDataFlowDiagram ent k1 ns es)) else None)
     \<and> components r =
         (if aiDiagramOk aiC then aiC
          else if ns \<noteq> [] \<and> es \<noteq> [] then Some (fst (generateSequenceDiagram ent k2 ns es)) else None)
     \<and> (\<forall>d. architecture r = Some d \<or> dataFlow r = Some d \<or> components r = Some d
            \<longrightarrow> code d \<noteq> [])
     \<and> ((\<forall>c \<in> set cs. comp_id c \<noteq> []) \<and> (\<forall>n \<in> set ns. node_id n \<noteq> [])
            \<longrightarrow> processDiagrams ent' ai arch flow = r))"
proof -
  define aiA where "aiA = (case ai of None \<Rightarrow> None | Some a \<Rightarrow> architecture a)"
  define aiF where "aiF = (case ai of None \<Rightarrow> None | Some a \<Rightarrow> dataFlow a)"
  define aiC where "aiC = (case ai of None \<Rightarrow> None | Some a \<Rightarrow> components a)"
  define cs where "cs = (case arch of None \<Rightarrow> [] | Some cs \<Rightarrow> cs)"
  define ns where "ns = (case flow of None \<Rightarrow> [] | Some f \<Rightarrow> (case nodes f of None \<Rightarrow> [] | Some ns \<Rightarrow> ns))"
  define es where "es = (case flow of None \<Rightarrow> [] | Some f \<Rightarrow> (case edges f of None \<Rightarrow> [] | Some es \<Rightarrow> es))"
  define k1 where "k1 = (if aiDiagramOk aiA then 0 else 2 * length cs)"
  define k2 where "k2 = (if aiDiagramOk aiF then k1 else k1 + length ns)"
  define r where "r = processDiagrams ent ai arch flow"
  have A: "architecture r =
         (if aiDiagramOk aiA then aiA
          else if cs \<noteq> [] then Some (fst (generateArchitectureDiagram ent 0 cs)) else None)"
    unfolding r_def processDiagrams_def aiA_def cs_def
    by (simp add: Let_def split_def split: option.splits)
  have F: "dataFlow r =
         (if aiDiagramOk aiF then aiF
          else if ns \<noteq> [] then Some (fst (generateDataFlowDiagram ent k1 ns es)) else None)"
    unfolding r_def processDiagrams_def aiA_def aiF_def cs_def ns_def es_def k1_def
    by (simp add: Let_def split_def generator_counts split: option.splits)
  have C: "components r =
         (if aiDiagramOk aiC then aiC
          else if ns \<noteq> [] \<and> es \<noteq> [] then Some (fst (generateSequenceDiagram ent k2 ns es)) else None)"
    unfolding r_def processDiagrams_def aiA_def aiF_def aiC_def cs_def ns_def es_def k1_def k2_def
    by (simp add: Let_def split_def generator_counts split: option.splits)
  have N: "code d \<noteq> []"
    if "architecture r = Some d \<or> dataFlow r = Some d \<or> components r = Some d" for d
    using that A F C generated_code_nonempty aiDiagramOk_Some
    by (metis option.distinct(1) option.inject)
  have D: "processDiagrams ent' ai arch flow = r"
    if "(\<forall>c \<in> set cs. comp_id c \<noteq> []) \<and> (\<forall>n \<in> set ns. node_id n \<noteq> [])"
    unfolding r_def using that unfolding cs_def ns_def
    by (intro processDiagrams_deterministic) simp_all
  show ?thesis
    unfolding Let_def
    using A F C N D
    unfolding r_def aiA_def aiF_def aiC_def cs_def ns_def es_def k1_def k2_def
    by blast
qed

theorem processDiagrams_policy_witness:
  "architecture (processDiagrams fixedEntropy None (Some [webComponent, apiComponent]) None)
     = Some (fst (generateArchitectureDiagram fixedEntropy 0 [webComponent, apiComponent]))
   \<and> code (fst (generateArchitectureDiagram fixedEntropy 0 [webComponent, apiComponent])) \<noteq> []
   \<and> dataFlow (processDiagrams fixedEntropy None (Some [webComponent, apiComponent]) None) = None
   \<and> components (processDiagrams fixedEntropy None (Some [webComponent, apiComponent]) None) = None
   \<and> processDiagrams laterEntropy None (Some [webComponent, apiComponent]) None
     = processDiagrams fixedEntropy None (Some [webComponent, apiComponent]) None"
proof -
  have ids: "\<forall>c \<in> set [webComponent, apiComponent]. comp_id c \<noteq> []"
    by (simp add: webComponent_def apiComponent_def js_def)
  show ?thesis
    using ids
      processDiagrams_policy [of fixedEntropy None "Some [webComponent, apiComponent]" None laterEntropy]
    by (simp add: Let_def aiDiagramOk_def)
qed

text \<open>
  The claim as stated fails: with no diagram from the backend (or one that does not pass
  the validation) and no structured data, every slot of the result is absent.
\<close>

theorem processDiagrams_placeholder_counterexample:
  "processDiagrams fixedEntropy None None None
     = \<lparr>architecture = None, dataFlow = None, components = None\<rparr>
   \<and> processDiagrams fixedEntropy
        (Some \<lparr>architecture = Some \<lparr>diagramType = js ''flowchart'', title = js ''Architecture'',
                                   code = js ''Here is the diagram you asked for''\<rparr>,
               dataFlow = None, components = None\<rparr>)
        (Some []) (Some \<lparr>nodes = Some [], edges = Some []\<rparr>)
     = \<lparr>architecture = None, dataFlow = None, components = None\<rparr>"
  by (simp add: processDiagrams_def aiDiagramOk_def validateMermaidSyntax_def validStarts_def
      startsWith_def toLowerCase_def toLowerCaseUnit_def trim_def isWhiteSpace_def js_def)

section \<open>Request admission: properties\<close>

lemma parseInt_examples:
  "parseInt (js ''11264'') = Some 11264"
  "parseInt (js '' 0x2C01'') = Some 11265"
  "parseInt (js ''-12px'') = Some (- 12)"
  "parseInt (js ''abc'') = None"
  by (simp_all add: parseInt_def js_def isWhiteSpace_def isDigitIn_def digitValue_def
      digitsValue_def)

subsection \<open>Decoding the body\<close>

lemma utf8Units_single: "b < 0x80 \<Longrightarrow> utf8Units (b # bs) = b # utf8Units bs"
  by (subst utf8Units.simps(2)) simp


lemma utf8Units_ascii: "\<forall>b \<in> set bs. b < 0x80 \<Longrightarrow> utf8Units bs = bs"
  by (induction bs) (simp_all add: utf8Units_single del: utf8Units.simps(2))

lemma utf8Decode_ascii:
  assumes "\<forall>b \<in> set bs. b < 0x80"
  shows "utf8Decode bs = bs"
proof -
  have "take 3 bs \<noteq> [0xEF, 0xBB, 0xBF]"
  proof
    assume "take 3 bs = [0xEF, 0xBB, 0xBF]"
    then have "0xEF \<in> set (take 3 bs)" by simp
    then have "0xEF \<in> set bs" by (rule in_set_takeD)
    then show False using assms by fastforce
  qed
  then show ?thesis using assms by (simp add: utf8Decode_def utf8Units_ascii)
qed



lemma utf8Decode_examples:
  "utf8Decode [0x61, 0xC3, 0xA9, 0xE2, 0x82, 0xAC, 0xF0, 0x9F, 0x98, 0x80, 0xFF, 0xC3]
     = [0x61, 0xE9, 0x20AC, 0xD83D, 0xDE00, 0xFFFD, 0xFFFD]"
  "utf8Decode [0xEF, 0xBB, 0xBF, 0x7B, 0x7D] = [0x7B, 0x7D]"
  "utf8Decode [0xE2, 0x82, 0x41, 0xED, 0xA0, 0x80] = [0xFFFD, 0x41, 0xFFFD, 0xFFFD, 0xFFFD]"
  by (simp_all add: utf8Decode_def isContinuation_def secondByteOk_def surrogates_def)

subsection \<open>The declared length\<close>









lemma POST_size_checks:
  assumes "allowed (fst (checkRateLimit cfg now (getClientIP request) st))"
    and "sizeCheckFires request"
  shows "POST True cfg now JSON_parse analysis request st =
           (ErrorResponse 413 (js ''Request body too large'') [],
            snd (checkRateLimit cfg now (getClientIP request) st))"
  using assms
  by (auto simp: POST_def sizeCheckFires_def Let_def split_def split: option.splits)









lemma oversize_chunked_rejected:
  "fst (POST True exampleConfig 1000 acceptingParser countingAnalysis bigChunkedRequest initialLimiter)
     = ErrorResponse 413 (js ''Request body too large'') []"
proof -
  have "sizeCheckFires bigChunkedRequest"
    by (simp add: sizeCheckFires_def bigChunkedRequest_def MAX_BODY_SIZE_def utf8Decode_ascii)
  moreover have "allowed (fst (checkRateLimit exampleConfig 1000 (getClientIP bigChunkedRequest)
      initialLimiter))"
    by (simp add: checkRateLimit_def initialLimiter_def ensureCleanupRunning_def)
  ultimately show ?thesis by (simp add: POST_size_checks)
qed

section \<open>Stream consumer: properties\<close>

lemma matchBraces_no_open: "0x7B \<notin> set s \<Longrightarrow> matchBraces s = None"
proof -
  assume "0x7B \<notin> set s"
  then have "dropWhile (\<lambda>c. c \<noteq> 0x7B) s = []" by (induction s) auto
  then show ?thesis by (simp add: matchBraces_def)
qed

lemma matchBraces_no_close: "0x7D \<notin> set s \<Longrightarrow> matchBraces s = None"
proof -
  assume a: "0x7D \<notin> set s"
  have "0x7D \<notin> set (tl (dropWhile (\<lambda>c. c \<noteq> 0x7B) s))"
    using a by (metis list.set_sel(2) set_dropWhileD tl_Nil empty_iff list.set(1))
  then have "\<forall>c \<in> set (rev (tl (dropWhile (\<lambda>c. c \<noteq> 0x7B) s))). c \<noteq> 0x7D" by auto
  then have "dropWhile (\<lambda>c. c \<noteq> 0x7D) (rev (tl (dropWhile (\<lambda>c. c \<noteq> 0x7B) s))) = []"
    by (simp only: dropWhile_eq_Nil_conv)
  then show ?thesis by (simp add: matchBraces_def Let_def)
qed

lemma done_without_braces:
  assumes "matchBraces (aiContent st) = None"
  shows "handleFrame JSON_parse DoneFrame st = st\<lparr>statusStage := Complete, statusProgress := 100\<rparr>"
  using assms by (simp add: handleFrame_def)

lemma metadata_state:
  "handleFrame JSON_parse (MetadataFrame sampleMetadata) startOfStream =
     \<lparr>currentResult = [(js ''metadata'', Object [(js ''fullName'', String (js ''octo/demo'')),
                                       (js ''defaultBranch'', String (js ''main''))]),
             (js ''fileTree'', Array [Object [(js ''path'', String (js ''README.md''))]]),
             (js ''fileStats'', Object [(js ''totalFiles'', Number 1)]),
             (js ''branch'', String (js ''main'')),
             (js ''availableBranches'', Array [])],
      aiContent = [], statusStage = Analyzing, statusProgress = 40,
      currentBranch = String (js ''main''),
      updateResultCalls = [[(js ''metadata'', Object [(js ''fullName'', String (js ''octo/demo'')),
                                       (js ''defaultBranch'', String (js ''main''))]),
             (js ''fileTree'', Array [Object [(js ''path'', String (js ''README.md''))]]),
             (js ''fileStats'', Object [(js ''totalFiles'', Number 1)]),
             (js ''branch'', String (js ''main'')),
             (js ''availableBranches'', Array [])]],
      storageSetCalls = []\<rparr>"
  by (simp add: handleFrame_def sampleMetadata_def startOfStream_def updateResult_def member_def
      getProp_def js_def Let_def)

text \<open>
  Claim C7 says that a stream that ends with no parseable JSON object still gives a
  fallback result (deterministic fields present, narrative fields empty collections) that
  is persisted to the cache. The code does this only in the handler of a parse error. On
  the first stream below the accumulated text holds no braces: for every parser, the done
  frame only sets the status; no fallback result is passed to \<open>updateResult\<close>, the
  narrative fields of the result stay undefined and nothing is written to the cache. On
  the second stream the text holds braces and the parser throws: the fallback result is
  cached under the repository name and branch, with empty lists for insights, refactors,
  automations and architecture, but with a summary that is not empty and with
  \<open>techStack\<close>, \<open>howToRun\<close> and \<open>keyFolders\<close> undefined.
\<close>

theorem done_without_json:
  "(let st = handleFrames JSON_parse plainTextStream startOfStream in
      statusStage st = Complete
    \<and> storageSetCalls st = []
    \<and> updateResultCalls st = [currentResult st]
    \<and> getProp (currentResult st) (js ''insights'') = Undefined
    \<and> getProp (currentResult st) (js ''architecture'') = Undefined)
   \<and> (let st = handleFrames throwingParser brokenJsonStream startOfStream in
      statusStage st = Complete
    \<and> storageSetCalls st =
        [(String (js ''octo/demo''), fallbackResult (currentResult st), String (js ''main''))]
    \<and> getProp (fallbackResult (currentResult st)) (js ''insights'') = Array []
    \<and> getProp (fallbackResult (currentResult st)) (js ''summary'')
        = String (js ''Analysis completed with parsing issues.'')
    \<and> getProp (fallbackResult (currentResult st)) (js ''techStack'') = Undefined
    \<and> getProp (fallbackResult (currentResult st)) (js ''howToRun'') = Undefined
    \<and> getProp (fallbackResult (currentResult st)) (js ''keyFolders'') = Undefined)"
proof -
  have p: "(let st = handleFrames JSON_parse plainTextStream startOfStream in
      statusStage st = Complete
    \<and> storageSetCalls st = []
    \<and> updateResultCalls st = [currentResult st]
    \<and> getProp (currentResult st) (js ''insights'') = Undefined
    \<and> getProp (currentResult st) (js ''architecture'') = Undefined)"
    unfolding handleFrames_def plainTextStream_def
    by (simp add: metadata_state)
       (simp add: handleFrame_def matchBraces_def getProp_def js_def Let_def)
  have b: "(let st = handleFrames throwingParser brokenJsonStream startOfStream in
      statusStage st = Complete
    \<and> storageSetCalls st =
        [(String (js ''octo/demo''), fallbackResult (currentResult st), String (js ''main''))]
    \<and> getProp (fallbackResult (currentResult st)) (js ''insights'') = Array []
    \<and> getProp (fallbackResult (currentResult st)) (js ''summary'')
        = String (js ''Analysis completed with parsing issues.'')
    \<and> getProp (fallbackResult (currentResult st)) (js ''techStack'') = Undefined
    \<and> getProp (fallbackResult (currentResult st)) (js ''howToRun'') = Undefined
    \<and> getProp (fallbackResult (currentResult st)) (js ''keyFolders'') = Undefined)"
    unfolding handleFrames_def brokenJsonStream_def
    by (simp add: metadata_state)
       (simp add: handleFrame_def matchBraces_def throwingParser_def saveToCache_def
          updateResult_def fallbackResult_def setProps_def member_def truthy_def getProp_def
          js_def Let_def)
  show ?thesis using p b by (rule conjI)
qed


end
